theory Spec2Isabelle
  imports Main "HOL-Library.Char_ord" "HOL-Library.List_Lexorder" "HOL-Library.Product_Lexorder"
begin

section \<open>Data model\<close>

text \<open>
  The program is \<^verbatim>\<open>scripts/excel_compare.py\<close>: class \<^verbatim>\<open>ExcelCompare\<close> compares two
  workbooks that pandas has read into dictionaries from sheet name to DataFrame.

  A cell is a number, a string, or the missing-value marker NaN.  Only equality of cells
  is ever used by the program; numbers are integers here, in the range of int64, and a
  number stands for its value, whether pandas holds it as an int64 or as a float64.
  pandas' \<^verbatim>\<open>compare\<close> treats two missing values as equal, which is what HOL equality on
  the constructor \<open>NaN\<close> gives.
\<close>

datatype cell = NaN | Num int | Str string

text \<open>
  The exceptions that can leave the program.  \<open>RaisedFrom e c\<close> is Python's
  \<^verbatim>\<open>raise e from c\<close>: the exception \<open>e\<close> with cause \<open>c\<close>.
\<close>

datatype error =
    KeyError cell
  | ValueError string
  | InvalidIndexError
  | RaisedFrom error error

text \<open>
  A DataFrame: the column labels in order, and the rows in order, each row being its index
  label and its cells in column order.  The index labels need not be distinct.  The type
  parameter is the type of column labels: strings for the sheets, pairs of strings for the
  two-level columns of the \<^verbatim>\<open>changed\<close> table.
\<close>

record 'c df =
  columns :: "'c list"
  rows :: "(cell \<times> cell list) list"

definition index :: "'c df \<Rightarrow> cell list" where
  "index d = map fst (rows d)"

text \<open>\<^verbatim>\<open>df.empty\<close>: true when an axis has length zero.\<close>

definition empty_df :: "'c df \<Rightarrow> bool" where
  "empty_df d \<longleftrightarrow> columns d = [] \<or> rows d = []"

text \<open>
  The three tables returned for one sheet (the dictionary with the keys
  \<^verbatim>\<open>"changed"\<close>, \<^verbatim>\<open>"added"\<close>, \<^verbatim>\<open>"deleted"\<close>).
\<close>

record sheet_diff =
  changed :: "(string \<times> string) df"
  added :: "string df"
  deleted :: "string df"

text \<open>
  The object \<^verbatim>\<open>self\<close>.  \<open>old_stem\<close> and \<open>new_stem\<close> are the \<^verbatim>\<open>stem\<close>s of the two file
  paths; the workbooks are dictionaries in insertion order, hence association lists.
\<close>

record excel_compare =
  old_stem :: string
  new_stem :: string
  index_name :: string
  other_ref_cols :: "string list option"
  ignored_cols :: "string list"
  old_excel :: "(string \<times> string df) list"
  new_excel :: "(string \<times> string df) list"

section \<open>The pandas operations the program calls\<close>

subsection \<open>Dropping columns\<close>

text \<open>
  \<^verbatim>\<open>df.drop(labels, inplace=True, axis=1)\<close>: every column whose label is listed goes, with
  its cells; the other columns keep their order.  (pandas raises on a label that is not a
  column; the program only passes labels intersected with the frame's own columns.)
\<close>

definition drop_cols :: "'c df \<Rightarrow> 'c list \<Rightarrow> 'c df" where
  "drop_cols d labels =
     \<lparr>columns = filter (\<lambda>c. c \<notin> set labels) (columns d),
      rows = map (\<lambda>(k, vs). (k, map snd (filter (\<lambda>(c, v). c \<notin> set labels) (zip (columns d) vs))))
                 (rows d)\<rparr>"

text \<open>
  \<^verbatim>\<open>Index.symmetric_difference\<close>, \<^verbatim>\<open>Index.union\<close> and \<^verbatim>\<open>Index.intersection\<close>: the
  program only tests membership in their results, so they are lists here.
\<close>

definition symmetric_difference :: "'a list \<Rightarrow> 'a list \<Rightarrow> 'a list" where
  "symmetric_difference xs ys = filter (\<lambda>x. x \<notin> set ys) xs @ filter (\<lambda>y. y \<notin> set xs) ys"

definition index_union :: "'a list \<Rightarrow> 'a list \<Rightarrow> 'a list" where
  "index_union xs ys = xs @ filter (\<lambda>y. y \<notin> set xs) ys"

definition intersection :: "'a list \<Rightarrow> 'a list \<Rightarrow> 'a list" where
  "intersection xs ys = filter (\<lambda>x. x \<in> set ys) xs"

subsection \<open>Moving a column into the index\<close>

text \<open>The cell of a row under a column label; rows of a DataFrame have one cell per column.\<close>

definition cell_at :: "'c list \<Rightarrow> cell list \<Rightarrow> 'c \<Rightarrow> cell" where
  "cell_at cs vs c = (case map_of (zip cs vs) c of Some v \<Rightarrow> v | None \<Rightarrow> NaN)"

text \<open>
  \<^verbatim>\<open>df.set_index(key, inplace=True)\<close>: KeyError when \<open>key\<close> is not a column; otherwise the
  cells of that column become the index labels and the column is removed.
\<close>

definition set_index :: "string \<Rightarrow> string df \<Rightarrow> error + string df" where
  "set_index key d =
     (if key \<notin> set (columns d) then Inl (KeyError (Str key))
      else Inr \<lparr>columns = filter (\<lambda>c. c \<noteq> key) (columns d),
                rows = map (\<lambda>(k, vs). (cell_at (columns d) vs key,
                                       map snd (filter (\<lambda>(c, v). c \<noteq> key) (zip (columns d) vs))))
                           (rows d)\<rparr>)"

subsection \<open>The outer join on the index\<close>

text \<open>
  \<^verbatim>\<open>pd.merge(df_old, df_new, on=index_name, how="outer", indicator=True)\<close>, where
  \<open>index_name\<close> names the index of both frames.  The program reads only the index of the
  result and its \<^verbatim>\<open>_merge\<close> column, so the result is the list of pairs of an index label and
  its indicator.  The distinct labels come in sorted order; a label with \<open>m\<close> rows on the left
  and \<open>n\<close> on the right gives \<open>m * n\<close> rows \<^verbatim>\<open>both\<close> when both are positive, \<open>m\<close> rows
  \<^verbatim>\<open>left_only\<close> when it is on the left alone and \<open>n\<close> rows \<^verbatim>\<open>right_only\<close> when it is on
  the right alone.  The sorted order is that of pandas 2.2 and later; earlier versions give
  the same rows in another order of the labels.  Column labels that collide with the labels
  merge reserves (the indicator \<^verbatim>\<open>_merge\<close>, or a column named like the index) are outside
  this model.
\<close>

datatype indicator = Both | Left_only | Right_only

fun key_rank :: "cell \<Rightarrow> nat \<times> int \<times> string" where
  "key_rank (Num i) = (0, i, [])"
| "key_rank (Str s) = (1, 0, s)"
| "key_rank NaN = (2, 0, [])"

definition merge_block :: "cell list \<Rightarrow> cell list \<Rightarrow> cell \<Rightarrow> (cell \<times> indicator) list" where
  "merge_block lk rk k =
     (let m = count_list lk k; n = count_list rk k
      in if 0 < m \<and> 0 < n then replicate (m * n) (k, Both)
         else if 0 < m then replicate m (k, Left_only)
         else replicate n (k, Right_only))"

definition merge_outer :: "'c df \<Rightarrow> 'c df \<Rightarrow> (cell \<times> indicator) list" where
  "merge_outer l r =
     concat (map (merge_block (index l) (index r))
                 (sort_key key_rank (remdups (index l @ index r))))"

text \<open>
  Before it joins, \<^verbatim>\<open>pd.merge\<close> refuses keys of incompatible types with a ValueError:
  when both frames have rows, the labels of one are numbers or missing and the labels of
  the other are strings or missing, with a string among them.  An index that holds numbers
  and strings is joined with either kind.  The message of pandas names the two types and
  the key (\<^verbatim>\<open>You are trying to merge on ... and ... columns for key ...\<close>); the model
  keeps one text for all of them.
\<close>

definition is_Str :: "cell \<Rightarrow> bool" where
  "is_Str v = (case v of Str s \<Rightarrow> True | _ \<Rightarrow> False)"

definition is_Num :: "cell \<Rightarrow> bool" where
  "is_Num v = (case v of Num i \<Rightarrow> True | _ \<Rightarrow> False)"

definition key_clash :: "cell list \<Rightarrow> cell list \<Rightarrow> bool" where
  "key_clash lk rk \<longleftrightarrow>
     lk \<noteq> [] \<and> rk \<noteq> []
     \<and> ((\<not> list_ex is_Str lk \<and> list_ex is_Str rk \<and> \<not> list_ex is_Num rk)
        \<or> (\<not> list_ex is_Str rk \<and> list_ex is_Str lk \<and> \<not> list_ex is_Num lk))"

definition merge :: "'c df \<Rightarrow> 'c df \<Rightarrow> error + (cell \<times> indicator) list" where
  "merge l r =
     (if key_clash (index l) (index r)
      then Inl (ValueError ''You are trying to merge on incompatible columns'')
      else Inr (merge_outer l r))"

text \<open>\<^verbatim>\<open>df_merged.index[df_merged["_merge"] == t]\<close>\<close>

definition index_where :: "(cell \<times> indicator) list \<Rightarrow> indicator \<Rightarrow> cell list" where
  "index_where merged t = map fst (filter (\<lambda>(k, t'). t' = t) merged)"

subsection \<open>Selection by label\<close>

text \<open>
  \<^verbatim>\<open>df.loc[labels]\<close> with a list of labels: for each listed label in turn, every row of the
  frame that carries it (so a label carried by several rows yields all of them, each time it
  is listed); KeyError for a label that no row carries.
\<close>

definition loc_rows :: "'c df \<Rightarrow> cell list \<Rightarrow> (cell \<times> cell list) list" where
  "loc_rows d ks = concat (map (\<lambda>k. filter (\<lambda>r. fst r = k) (rows d)) ks)"

definition loc :: "'c df \<Rightarrow> cell list \<Rightarrow> error + 'c df" where
  "loc d ks =
     (case find (\<lambda>k. k \<notin> set (index d)) ks of
        Some k \<Rightarrow> Inl (KeyError k)
      | None \<Rightarrow> Inr \<lparr>columns = columns d, rows = loc_rows d ks\<rparr>)"

text \<open>
  \<^verbatim>\<open>df.loc[labels, cols]\<close>: the same rows, restricted to the listed columns in the listed
  order; KeyError for a listed column that the frame does not have.
\<close>

definition loc_cols :: "string df \<Rightarrow> cell list \<Rightarrow> string list \<Rightarrow> error + string df" where
  "loc_cols d ks cs =
     (case find (\<lambda>c. c \<notin> set (columns d)) cs of
        Some c \<Rightarrow> Inl (KeyError (Str c))
      | None \<Rightarrow>
          (case loc d ks of
             Inl e \<Rightarrow> Inl e
           | Inr s \<Rightarrow> Inr \<lparr>columns = cs,
                           rows = map (\<lambda>(k, vs). (k, map (cell_at (columns d) vs) cs)) (rows s)\<rparr>))"

subsection \<open>Column types\<close>

text \<open>
  pandas keeps the cells of one column in one type: int64 when every cell is a number,
  float64 when a cell is missing and none is a string, Python objects when a cell is a
  string.  A selection of rows keeps the types of the frame it is taken from.  The numbers
  of a frame are taken to be the values its columns hold; the rounding to float64 is
  modelled where pandas turns a column of another type into float64.
\<close>

datatype dtype = Int64 | Float64 | Object

definition dtype_of :: "cell list \<Rightarrow> dtype" where
  "dtype_of vs =
     (if list_ex is_Str vs then Object else if list_ex (\<lambda>v. v = NaN) vs then Float64 else Int64)"

definition column_cells :: "'c df \<Rightarrow> nat \<Rightarrow> cell list" where
  "column_cells d j = map (\<lambda>(k, vs). if j < length vs then vs ! j else NaN) (rows d)"

definition dtypes :: "'c df \<Rightarrow> dtype list" where
  "dtypes d = map (\<lambda>j. dtype_of (column_cells d j)) [0..<length (columns d)]"

text \<open>
  float64 holds an integer exactly up to \<open>2 ^ 53\<close> and a larger one rounded to 53
  significant bits, to the nearest such value and to the even one of two nearest.
\<close>

function bit_length :: "int \<Rightarrow> nat" where
  "bit_length n = (if n \<le> 0 then 0 else Suc (bit_length (n div 2)))"
  by pat_completeness auto
termination
  by (relation "measure nat") auto

declare bit_length.simps [simp del]

definition float64 :: "int \<Rightarrow> int" where
  "float64 i =
     (let a = \<bar>i\<bar>; e = bit_length a - 53
      in if e = 0 then i
         else let q = a div 2 ^ e; r = a mod 2 ^ e; h = 2 ^ (e - 1);
                  q' = (if h < r \<or> (r = h \<and> q mod 2 = 1) then q + 1 else q)
              in sgn i * (q' * 2 ^ e))"

definition to_float :: "cell \<Rightarrow> cell" where
  "to_float v = (case v of Num i \<Rightarrow> Num (float64 i) | _ \<Rightarrow> v)"

subsection \<open>Cell comparison\<close>

text \<open>
  \<^verbatim>\<open>a.compare(b, result_names=(ln, rn))\<close>, each frame with the types of its columns:
  ValueError unless the two frames carry the same index labels and the same column labels
  in the same order.  Otherwise the cells are compared position by position; a row is kept
  when one of its cells differs, a column is kept when it differs in some row, and each kept
  column \<open>c\<close> becomes the pair of columns \<open>(c, ln)\<close> and \<open>(c, rn)\<close> holding the two values
  where they differ and NaN where they are equal.

  Two cells of int64 columns, or of which one is a Python object, are compared as they
  are; with a float64 column on one side the other value is taken as a float64 as well.
  A value is shown as a float64 when its column is one, and also when its column is int64
  and has a cell that does not differ: the NaN put there turns the column into float64.
\<close>

definition differ :: "dtype \<Rightarrow> dtype \<Rightarrow> cell \<Rightarrow> cell \<Rightarrow> bool" where
  "differ da db ov nv =
     (if (da = Float64 \<and> db \<noteq> Object) \<or> (db = Float64 \<and> da \<noteq> Object)
      then to_float ov \<noteq> to_float nv else ov \<noteq> nv)"

definition row_mask :: "dtype list \<Rightarrow> dtype list \<Rightarrow> cell list \<Rightarrow> cell list \<Rightarrow> bool list" where
  "row_mask das dbs os ns =
     map (\<lambda>((da, db), ov, nv). differ da db ov nv) (zip (zip das dbs) (zip os ns))"

definition col_mask :: "nat \<Rightarrow> bool list list \<Rightarrow> bool list" where
  "col_mask n masks = map (\<lambda>j. list_ex (\<lambda>m. j < length m \<and> m ! j) masks) [0..<n]"

definition col_full :: "nat \<Rightarrow> bool list list \<Rightarrow> bool list" where
  "col_full n masks = map (\<lambda>j. list_all (\<lambda>m. j < length m \<and> m ! j) masks) [0..<n]"

definition shown :: "dtype \<Rightarrow> bool \<Rightarrow> cell \<Rightarrow> cell" where
  "shown dt full v = (if dt = Float64 \<or> (dt = Int64 \<and> \<not> full) then to_float v else v)"

definition diff_cells ::
  "(bool \<times> bool \<times> dtype \<times> dtype) list \<Rightarrow> cell list \<Rightarrow> cell list \<Rightarrow> cell list" where
  "diff_cells infos os ns =
     concat (map (\<lambda>((keep, full, da, db), ov, nv).
                    if keep then (if differ da db ov nv then [shown da full ov, shown db full nv]
                                  else [NaN, NaN])
                    else [])
                 (zip infos (zip os ns)))"

definition cell_masks :: "string df \<times> dtype list \<Rightarrow> string df \<times> dtype list \<Rightarrow> bool list list" where
  "cell_masks a b =
     map (\<lambda>((k, os), (k', ns)). row_mask (snd a) (snd b) os ns) (zip (rows (fst a)) (rows (fst b)))"

definition cell_infos ::
  "string df \<times> dtype list \<Rightarrow> string df \<times> dtype list \<Rightarrow> (bool \<times> bool \<times> dtype \<times> dtype) list" where
  "cell_infos a b =
     (let n = length (columns (fst a)); masks = cell_masks a b
      in zip (col_mask n masks) (zip (col_full n masks) (zip (snd a) (snd b))))"

definition differing_rows ::
  "string df \<times> dtype list \<Rightarrow> string df \<times> dtype list
     \<Rightarrow> ((cell \<times> cell list) \<times> (cell \<times> cell list)) list" where
  "differing_rows a b =
     filter (\<lambda>((k, os), (k', ns)). True \<in> set (row_mask (snd a) (snd b) os ns))
            (zip (rows (fst a)) (rows (fst b)))"

definition compare ::
  "string \<Rightarrow> string \<Rightarrow> string df \<times> dtype list \<Rightarrow> string df \<times> dtype list
     \<Rightarrow> error + (string \<times> string) df" where
  "compare ln rn a b =
     (if index (fst a) \<noteq> index (fst b) \<or> columns (fst a) \<noteq> columns (fst b)
      then Inl (ValueError
        ''Can only compare identically-labeled (both index and columns) DataFrame objects'')
      else
        Inr \<lparr>columns = concat (map (\<lambda>(keep, c). if keep then [(c, ln), (c, rn)] else [])
                                   (zip (col_mask (length (columns (fst a))) (cell_masks a b))
                                        (columns (fst a)))),
             rows = map (\<lambda>((k, os), (k', ns)). (k, diff_cells (cell_infos a b) os ns))
                        (differing_rows a b)\<rparr>)"

text \<open>\<^verbatim>\<open>df.fillna(v)\<close>: every missing cell becomes \<open>v\<close>.\<close>

definition fillna :: "cell \<Rightarrow> 'c df \<Rightarrow> 'c df" where
  "fillna v d =
     \<lparr>columns = columns d,
      rows = map (\<lambda>(k, vs). (k, map (\<lambda>x. if x = NaN then v else x) vs)) (rows d)\<rparr>"

subsection \<open>Concatenation along the columns\<close>

text \<open>
  \<^verbatim>\<open>pd.concat([a, b], axis=1)\<close>.  Frames with the same index labels in the same order are
  put side by side.  The program calls it with \<open>a\<close> selected from the old rows by the index
  labels of \<open>b\<close>, so the two indexes differ only when a label of \<open>b\<close> is carried by several
  old rows; the index of \<open>a\<close> then has repeated labels and pandas refuses to align it.
\<close>

definition concat_axis1 :: "'c df \<Rightarrow> 'c df \<Rightarrow> error + 'c df" where
  "concat_axis1 a b =
     (if index a = index b
      then Inr \<lparr>columns = columns a @ columns b,
                rows = map (\<lambda>((k, xs), (k', ys)). (k, xs @ ys)) (zip (rows a) (rows b))\<rparr>
      else Inl InvalidIndexError)"

section \<open>The program\<close>

subsection \<open>\<^verbatim>\<open>delete_ignored_and_conflicting_cols\<close>\<close>

text \<open>
  Both frames are changed in place; the function returns them as a pair.  The second frame
  is changed first, as in the source, from the labels computed before either change.
\<close>

definition delete_ignored_and_conflicting_cols ::
  "excel_compare \<Rightarrow> string df \<Rightarrow> string df \<Rightarrow> string df \<times> string df" where
  "delete_ignored_and_conflicting_cols self df1 df2 =
     (let cols_to_delete =
            index_union (symmetric_difference (columns df1) (columns df2)) (ignored_cols self);
          df2' = drop_cols df2 (intersection (columns df2) cols_to_delete);
          df1' = drop_cols df1 (intersection (columns df1) cols_to_delete)
      in (df1', df2'))"

subsection \<open>\<^verbatim>\<open>get_sheet_diff\<close>\<close>

text \<open>
  The exception of line 86: \<^verbatim>\<open>ValueError("Possibly duplicate index")\<close>, raised from the
  ValueError of \<^verbatim>\<open>compare\<close>.
\<close>

definition duplicate_index_error :: error where
  "duplicate_index_error =
     RaisedFrom (ValueError ''Possibly duplicate index'')
                (ValueError
        ''Can only compare identically-labeled (both index and columns) DataFrame objects'')"

text \<open>
  Lines 89 to 93: with reference columns configured and a comparison that is not empty, the
  reference columns of the old rows at the index labels of the comparison are put to its
  left, each under the two-level label \<open>(ref_col, "-")\<close>.
\<close>

definition add_ref_cols ::
  "excel_compare \<Rightarrow> string df \<Rightarrow> (string \<times> string) df \<Rightarrow> error + (string \<times> string) df" where
  "add_ref_cols self df_old_both df_cell_cmp =
     (case other_ref_cols self of
        None \<Rightarrow> Inr df_cell_cmp
      | Some ref_cols \<Rightarrow>
          if ref_cols \<noteq> [] \<and> \<not> empty_df df_cell_cmp
          then (case loc_cols df_old_both (index df_cell_cmp) ref_cols of
                  Inl e \<Rightarrow> Inl e
                | Inr df_ref \<Rightarrow>
                    concat_axis1 \<lparr>columns = map (\<lambda>ref_col. (ref_col, ''-'')) ref_cols,
                                  rows = rows df_ref\<rparr>
                                 df_cell_cmp)
          else Inr df_cell_cmp)"

text \<open>
  The part of \<^verbatim>\<open>get_sheet_diff\<close> after the columns have been reconciled (lines 72 to
  102), on the two reconciled frames.  Only the ValueError of \<^verbatim>\<open>compare\<close> is caught and
  raised anew, the one of \<^verbatim>\<open>merge\<close> is not; the three tables are built in the order of the
  dictionary display.
\<close>

definition diff_reconciled :: "excel_compare \<Rightarrow> string df \<Rightarrow> string df \<Rightarrow> error + sheet_diff" where
  "diff_reconciled self df_old df_new =
     (case merge df_old df_new of
        Inl e \<Rightarrow> Inl e
      | Inr df_merged \<Rightarrow>
     (let df_idx_in_both = index_where df_merged Both
      in case loc df_old df_idx_in_both of
           Inl e \<Rightarrow> Inl e
         | Inr df_old_both \<Rightarrow>
        (case loc df_new df_idx_in_both of
           Inl e \<Rightarrow> Inl e
         | Inr df_new_both \<Rightarrow>
        (case compare (old_stem self) (new_stem self)
                (df_old_both, dtypes df_old) (df_new_both, dtypes df_new) of
           Inl e \<Rightarrow> Inl (RaisedFrom (ValueError ''Possibly duplicate index'') e)
         | Inr cmp \<Rightarrow>
        (case add_ref_cols self df_old_both (fillna (Str []) cmp) of
           Inl e \<Rightarrow> Inl e
         | Inr df_cell_cmp \<Rightarrow>
        (let df_idx_in_old_only = index_where df_merged Left_only;
             df_idx_in_new_only = index_where df_merged Right_only
         in case loc df_new df_idx_in_new_only of
              Inl e \<Rightarrow> Inl e
            | Inr df_added \<Rightarrow>
           (case loc df_old df_idx_in_old_only of
              Inl e \<Rightarrow> Inl e
            | Inr df_deleted \<Rightarrow>
                Inr \<lparr>changed = df_cell_cmp, added = df_added, deleted = df_deleted\<rparr>)))))))"

text \<open>
  The frames \<^verbatim>\<open>df_old_both\<close> (with \<open>d = l\<close>) and \<^verbatim>\<open>df_new_both\<close> (with \<open>d = r\<close>) of
  \<^verbatim>\<open>get_sheet_diff\<close>, where \<open>l\<close> and \<open>r\<close> are the reconciled old and new frames, each with
  the types of its columns, which are those of the frame it is selected from.
\<close>

definition both_rows :: "string df \<Rightarrow> string df \<Rightarrow> string df \<Rightarrow> string df \<times> dtype list" where
  "both_rows d l r =
     (\<lparr>columns = columns d, rows = loc_rows d (index_where (merge_outer l r) Both)\<rparr>, dtypes d)"

text \<open>
  \<^verbatim>\<open>get_sheet_diff\<close> returns the result (or the exception) together with the two frames as
  it leaves them: they are changed in place, also when an exception follows.
\<close>

definition get_sheet_diff ::
  "excel_compare \<Rightarrow> string df \<Rightarrow> string df \<Rightarrow> (error + sheet_diff) \<times> string df \<times> string df" where
  "get_sheet_diff self df_old df_new =
     (let (df_old', df_new') = delete_ignored_and_conflicting_cols self df_old df_new
      in (diff_reconciled self df_old' df_new', df_old', df_new'))"

subsection \<open>\<^verbatim>\<open>get_excel_diff\<close>\<close>

text \<open>The DataFrame stored under a sheet name is replaced by its changed version.\<close>

definition store :: "string \<Rightarrow> 'a \<Rightarrow> (string \<times> 'a) list \<Rightarrow> (string \<times> 'a) list" where
  "store name d book = map (\<lambda>(n, x). if n = name then (n, d) else (n, x)) book"

text \<open>
  The key setup at the head of the loop body, for one sheet.  With
  \<open>index_name = "_index_"\<close> the positional index is only given a name
  (\<^verbatim>\<open>index.set_names\<close>), which changes nothing here.  Otherwise the key column becomes
  the index (\<^verbatim>\<open>set_index\<close>).
\<close>

definition set_key :: "excel_compare \<Rightarrow> string df \<Rightarrow> error + string df" where
  "set_key self d =
     (if index_name self = ''_index_'' then Inr d else set_index (index_name self) d)"

text \<open>
  One pass of the loop body for the sheet \<open>sheet_name\<close>: the key setup of the old sheet,
  then of the new sheet, then \<^verbatim>\<open>get_sheet_diff\<close> on the two.  A sheet name that the new
  workbook does not have is a KeyError of the dictionary.  Every change is made in place, so
  it stays in the workbooks also when an exception follows.
\<close>

definition compare_sheet ::
  "excel_compare \<Rightarrow> string \<Rightarrow> (error + sheet_diff) \<times> excel_compare" where
  "compare_sheet self sheet_name =
     (case map_of (old_excel self) sheet_name of
        None \<Rightarrow> (Inl (KeyError (Str sheet_name)), self)
      | Some df_old \<Rightarrow>
          (case set_key self df_old of
             Inl e \<Rightarrow> (Inl e, self)
           | Inr df_old1 \<Rightarrow>
               (let self1 = self\<lparr>old_excel := store sheet_name df_old1 (old_excel self)\<rparr>
                in case map_of (new_excel self1) sheet_name of
                     None \<Rightarrow> (Inl (KeyError (Str sheet_name)), self1)
                   | Some df_new \<Rightarrow>
                       (case set_key self1 df_new of
                          Inl e \<Rightarrow> (Inl e, self1)
                        | Inr df_new1 \<Rightarrow>
                            (let (res, df_old2, df_new2) = get_sheet_diff self1 df_old1 df_new1
                             in (res, self1\<lparr>old_excel := store sheet_name df_old2 (old_excel self1),
                                            new_excel := store sheet_name df_new2 (new_excel self1)\<rparr>))))))"

text \<open>
  The loop over the sheet names of the old workbook, collecting the dictionary
  \<^verbatim>\<open>excel_diff\<close>; an exception ends it.
\<close>

fun compare_sheets ::
  "excel_compare \<Rightarrow> string list \<Rightarrow> (error + (string \<times> sheet_diff) list) \<times> excel_compare" where
  "compare_sheets self [] = (Inr [], self)"
| "compare_sheets self (sheet_name # names) =
     (case compare_sheet self sheet_name of
        (Inl e, self1) \<Rightarrow> (Inl e, self1)
      | (Inr d, self1) \<Rightarrow>
          (case compare_sheets self1 names of
             (Inl e, self2) \<Rightarrow> (Inl e, self2)
           | (Inr ds, self2) \<Rightarrow> (Inr ((sheet_name, d) # ds), self2)))"

definition get_excel_diff ::
  "excel_compare \<Rightarrow> (error + (string \<times> sheet_diff) list) \<times> excel_compare" where
  "get_excel_diff self = compare_sheets self (map fst (old_excel self))"

text \<open>
  What the loop does for the sheet named \<open>n\<close> when it returns the table \<open>d\<close> for it,
  where \<open>self\<close> is the object before and \<open>self'\<close> the object after: the old and the new
  sheet of that name get their key setup, \<^verbatim>\<open>get_sheet_diff\<close> on the two returns \<open>d\<close>, and
  the two frames as it leaves them are the sheets of that name afterwards.
\<close>

abbreviation sheet_outcome :: "excel_compare \<Rightarrow> excel_compare \<Rightarrow> string \<Rightarrow> sheet_diff \<Rightarrow> bool" where
  "sheet_outcome self self' n d \<equiv>
     \<exists>df_old df_new df_old1 df_new1 df_old2 df_new2.
       map_of (old_excel self) n = Some df_old \<and> map_of (new_excel self) n = Some df_new
       \<and> set_key self df_old = Inr df_old1 \<and> set_key self df_new = Inr df_new1
       \<and> get_sheet_diff self df_old1 df_new1 = (Inr d, df_old2, df_new2)
       \<and> map_of (old_excel self') n = Some df_old2
       \<and> map_of (new_excel self') n = Some df_new2"

subsection \<open>Pairing by position\<close>

text \<open>
  The pairing of sheets as the specification words it, for comparison with
  \<^verbatim>\<open>get_excel_diff\<close>: the Nth sheet of the old workbook against the Nth sheet of the new
  one, whatever their names, as far as the shorter workbook goes.  Each pair gets the key
  setup and \<^verbatim>\<open>get_sheet_diff\<close> of the program.
\<close>

definition positional_excel_diff :: "excel_compare \<Rightarrow> (string \<times> (error + sheet_diff)) list" where
  "positional_excel_diff self =
     map (\<lambda>((n, df_old), (n', df_new)).
            (n, case set_key self df_old of
                  Inl e \<Rightarrow> Inl e
                | Inr df_old1 \<Rightarrow>
                    (case set_key self df_new of
                       Inl e \<Rightarrow> Inl e
                     | Inr df_new1 \<Rightarrow> fst (get_sheet_diff self df_old1 df_new1))))
         (zip (old_excel self) (new_excel self))"

section \<open>Example sheets\<close>

text \<open>
  The first scenario of the specification, with two more columns: \<^verbatim>\<open>notes\<close> is ignored and
  \<^verbatim>\<open>extra\<close> exists in the old sheet only.  The key column \<^verbatim>\<open>id\<close> is already the index.
\<close>

definition ex_self :: excel_compare where
  "ex_self = \<lparr>old_stem = ''old'', new_stem = ''new'', index_name = ''id'',
     other_ref_cols = None, ignored_cols = [''notes''], old_excel = [], new_excel = []\<rparr>"

definition ex_old :: "string df" where
  "ex_old = \<lparr>columns = [''val'', ''notes'', ''extra''],
     rows = [(Num 1, [Str ''a'', Str ''x'', Num 0]), (Num 2, [Str ''b'', Str ''y'', Num 0])]\<rparr>"

definition ex_new :: "string df" where
  "ex_new = \<lparr>columns = [''val'', ''notes''],
     rows = [(Num 1, [Str ''a'', Str ''z'']), (Num 3, [Str ''c'', Str ''z''])]\<rparr>"

text \<open>Sheets with a repeated key: the key 1 twice in the old sheet, twice or once in the new.\<close>

definition dup_old :: "string df" where
  "dup_old = \<lparr>columns = [''val''], rows = [(Num 1, [Str ''a'']), (Num 1, [Str ''b''])]\<rparr>"



definition other_new :: "string df" where
  "other_new = \<lparr>columns = [''val''], rows = [(Num 3, [Str ''c''])]\<rparr>"

text \<open>
  The key 1 twice in the old sheet and not in the new one, the key 2 twice in the old sheet
  and once in the new one.
\<close>

definition dup2_old :: "string df" where
  "dup2_old = \<lparr>columns = [''val''],
     rows = [(Num 1, [Str ''a'']), (Num 1, [Str ''b'']), (Num 2, [Str ''c'']), (Num 2, [Str ''d''])]\<rparr>"

definition single2_new :: "string df" where
  "single2_new = \<lparr>columns = [''val''], rows = [(Num 2, [Str ''c''])]\<rparr>"



text \<open>
  Sheets with a reference column \<^verbatim>\<open>name\<close>: \<open>ref_new\<close> differs from \<open>ref_old\<close> in that
  column only, \<open>ref_new2\<close> in the column \<^verbatim>\<open>val\<close> only.
\<close>

definition ref_self :: excel_compare where
  "ref_self = \<lparr>old_stem = ''old'', new_stem = ''new'', index_name = ''id'',
     other_ref_cols = Some [''name''], ignored_cols = [], old_excel = [], new_excel = []\<rparr>"

definition ref_old :: "string df" where
  "ref_old = \<lparr>columns = [''name'', ''val''],
     rows = [(Num 1, [Str ''a'', Num 10]), (Num 2, [Str ''b'', Num 20])]\<rparr>"

definition ref_new :: "string df" where
  "ref_new = \<lparr>columns = [''name'', ''val''],
     rows = [(Num 1, [Str ''A'', Num 10]), (Num 2, [Str ''b'', Num 20])]\<rparr>"

definition ref_new2 :: "string df" where
  "ref_new2 = \<lparr>columns = [''name'', ''val''],
     rows = [(Num 1, [Str ''a'', Num 10]), (Num 2, [Str ''b'', Num 21])]\<rparr>"

text \<open>
  Two workbooks with the sheets \<^verbatim>\<open>A\<close> and \<^verbatim>\<open>B\<close> and the key column \<^verbatim>\<open>id\<close>: in
  \<open>swapped_self\<close> the new workbook has them in the other order, in \<open>short_self\<close> it has
  \<^verbatim>\<open>A\<close> only.
\<close>

definition sheet_a :: "string df" where
  "sheet_a = \<lparr>columns = [''id'', ''val''], rows = [(Num 0, [Num 1, Str ''a''])]\<rparr>"

definition sheet_b :: "string df" where
  "sheet_b = \<lparr>columns = [''id'', ''val''], rows = [(Num 0, [Num 1, Str ''b''])]\<rparr>"

definition swapped_self :: excel_compare where
  "swapped_self = \<lparr>old_stem = ''old'', new_stem = ''new'', index_name = ''id'',
     other_ref_cols = None, ignored_cols = [],
     old_excel = [(''A'', sheet_a), (''B'', sheet_b)],
     new_excel = [(''B'', sheet_b), (''A'', sheet_a)]\<rparr>"

definition short_self :: excel_compare where
  "short_self = \<lparr>old_stem = ''old'', new_stem = ''new'', index_name = ''id'',
     other_ref_cols = None, ignored_cols = [],
     old_excel = [(''A'', sheet_a), (''B'', sheet_b)],
     new_excel = [(''A'', sheet_a)]\<rparr>"

text \<open>
  A workbook pair with one sheet \<^verbatim>\<open>S\<close>, the key column \<^verbatim>\<open>id\<close>, the ignored column
  \<^verbatim>\<open>notes\<close> and a column \<^verbatim>\<open>extra\<close> of the old sheet only.
\<close>

definition book_old :: "string df" where
  "book_old = \<lparr>columns = [''id'', ''val'', ''notes'', ''extra''],
     rows = [(Num 0, [Num 1, Str ''a'', Str ''x'', Num 0])]\<rparr>"

definition book_new :: "string df" where
  "book_new = \<lparr>columns = [''id'', ''val'', ''notes''],
     rows = [(Num 0, [Num 1, Str ''b'', Str ''y''])]\<rparr>"

definition book_self :: excel_compare where
  "book_self = \<lparr>old_stem = ''old'', new_stem = ''new'', index_name = ''id'',
     other_ref_cols = None, ignored_cols = [''notes''],
     old_excel = [(''S'', book_old)], new_excel = [(''S'', book_new)]\<rparr>"

section \<open>Column reconciliation\<close>

lemma columns_drop_cols: "columns (drop_cols d labels) = filter (\<lambda>c. c \<notin> set labels) (columns d)"
  by (simp add: drop_cols_def)

lemma set_cols_to_delete:
  "set (index_union (symmetric_difference xs ys) ign) = (set xs - set ys) \<union> (set ys - set xs) \<union> set ign"
  by (auto simp: index_union_def symmetric_difference_def)




section \<open>Row alignment\<close>

lemma count_list_distinct: "distinct ks \<Longrightarrow> count_list ks k = (if k \<in> set ks then 1 else 0)"
  by (induction ks) auto

lemma count_list_replicate: "count_list (replicate n x) y = (if x = y then n else 0)"
  by (induction n) auto

lemma count_list_concat_replicate:
  "count_list (concat (map (\<lambda>j. replicate (g j) j) ks)) k = g k * count_list ks k"
  by (induction ks) (auto simp: count_list_replicate)

lemma set_concat_replicate:
  "set (concat (map (\<lambda>j. replicate (g j) j) ks)) = {k \<in> set ks. 0 < g k}"
  by (induction ks) auto

lemma index_where_concat:
  "index_where (concat xss) t = concat (map (\<lambda>xs. index_where xs t) xss)"
  by (simp add: index_where_def filter_concat map_concat comp_def)

lemma index_where_block_Both:
  "index_where (merge_block lk rk k) Both =
     replicate (if k \<in> set lk \<and> k \<in> set rk then count_list lk k * count_list rk k else 0) k"
  by (auto simp: index_where_def merge_block_def Let_def count_list_0_iff)

lemma index_where_block_Left:
  "index_where (merge_block lk rk k) Left_only =
     replicate (if k \<notin> set rk then count_list lk k else 0) k"
  by (auto simp: index_where_def merge_block_def Let_def count_list_0_iff)

lemma index_where_block_Right:
  "index_where (merge_block lk rk k) Right_only =
     replicate (if k \<notin> set lk then count_list rk k else 0) k"
  by (auto simp: index_where_def merge_block_def Let_def count_list_0_iff)

text \<open>The three index selections, label by label in the order of the join.\<close>

lemma idx_both:
  "index_where (merge_outer l r) Both =
     concat (map (\<lambda>k. replicate (if k \<in> set (index l) \<and> k \<in> set (index r)
                                  then count_list (index l) k * count_list (index r) k else 0) k)
                 (sort_key key_rank (remdups (index l @ index r))))"
  by (simp add: merge_outer_def index_where_concat comp_def index_where_block_Both)

lemma idx_left:
  "index_where (merge_outer l r) Left_only =
     concat (map (\<lambda>k. replicate (if k \<notin> set (index r) then count_list (index l) k else 0) k)
                 (sort_key key_rank (remdups (index l @ index r))))"
  by (simp add: merge_outer_def index_where_concat comp_def index_where_block_Left)

lemma idx_right:
  "index_where (merge_outer l r) Right_only =
     concat (map (\<lambda>k. replicate (if k \<notin> set (index l) then count_list (index r) k else 0) k)
                 (sort_key key_rank (remdups (index l @ index r))))"
  by (simp add: merge_outer_def index_where_concat comp_def index_where_block_Right)

lemma set_idx_both: "set (index_where (merge_outer l r) Both) = set (index l) \<inter> set (index r)"
  by (auto simp: idx_both set_concat_replicate count_list_0_iff split: if_splits)

lemma set_idx_left: "set (index_where (merge_outer l r) Left_only) = set (index l) - set (index r)"
  by (auto simp: idx_left set_concat_replicate count_list_0_iff split: if_splits)

lemma set_idx_right: "set (index_where (merge_outer l r) Right_only) = set (index r) - set (index l)"
  by (auto simp: idx_right set_concat_replicate count_list_0_iff split: if_splits)

lemma count_idx_both:
  "count_list (index_where (merge_outer l r) Both) k =
     (if k \<in> set (index l) \<and> k \<in> set (index r)
      then count_list (index l) k * count_list (index r) k else 0)"
  by (simp add: idx_both count_list_concat_replicate count_list_distinct)

lemma count_idx_left:
  "count_list (index_where (merge_outer l r) Left_only) k =
     (if k \<notin> set (index r) then count_list (index l) k else 0)"
  by (simp add: idx_left count_list_concat_replicate count_list_distinct)

lemma count_idx_right:
  "count_list (index_where (merge_outer l r) Right_only) k =
     (if k \<notin> set (index l) then count_list (index r) k else 0)"
  by (simp add: idx_right count_list_concat_replicate count_list_distinct)

text \<open>
  C6.  The index labels tagged \<^verbatim>\<open>both\<close>, \<^verbatim>\<open>left_only\<close> and \<^verbatim>\<open>right_only\<close> by the join of
  two frames are pairwise disjoint sets, and together they are the index labels of the two
  frames.  (\<^verbatim>\<open>get_sheet_diff\<close> joins the two reconciled frames, whose index labels are those
  of the frames it was given.)
\<close>

theorem key_sets_partition:
  "set (index_where (merge_outer df_old df_new) Both)
     \<inter> set (index_where (merge_outer df_old df_new) Left_only) = {}
   \<and> set (index_where (merge_outer df_old df_new) Both)
       \<inter> set (index_where (merge_outer df_old df_new) Right_only) = {}
   \<and> set (index_where (merge_outer df_old df_new) Left_only)
       \<inter> set (index_where (merge_outer df_old df_new) Right_only) = {}
   \<and> set (index_where (merge_outer df_old df_new) Both)
       \<union> set (index_where (merge_outer df_old df_new) Left_only)
       \<union> set (index_where (merge_outer df_old df_new) Right_only)
     = set (index df_old) \<union> set (index df_new)"
  unfolding set_idx_both set_idx_left set_idx_right by blast

section \<open>Selection by label and the duplicate-index error\<close>

lemma index_drop_cols: "index (drop_cols d labels) = index d"
  by (simp add: index_def drop_cols_def comp_def case_prod_unfold)

lemma index_reconciled:
  "delete_ignored_and_conflicting_cols self df1 df2 = (df1', df2') \<Longrightarrow>
   index df1' = index df1 \<and> index df2' = index df2"
  by (auto simp: delete_ignored_and_conflicting_cols_def Let_def index_drop_cols)

lemma loc_Inr:
  "set ks \<subseteq> set (index d) \<Longrightarrow> loc d ks = Inr \<lparr>columns = columns d, rows = loc_rows d ks\<rparr>"
  by (auto simp: loc_def find_None_iff split: option.splits)

lemma map_fst_filter_key:
  "map fst (filter (\<lambda>r. fst r = k) rs) = replicate (count_list (map fst rs) k) k"
  by (induction rs) auto

lemma index_loc_rows:
  "map fst (loc_rows d ks) = concat (map (\<lambda>k. replicate (count_list (index d) k) k) ks)"
  by (simp add: loc_rows_def map_concat comp_def map_fst_filter_key index_def)

lemma set_loc_rows: "set (loc_rows d ks) = {r \<in> set (rows d). fst r \<in> set ks}"
  by (auto simp: loc_rows_def)

lemma filter_loc_rows:
  "filter (\<lambda>r. fst r = k) (loc_rows d ks)
     = concat (replicate (count_list ks k) (filter (\<lambda>r. fst r = k) (rows d)))"
proof (induction ks)
  case Nil
  then show ?case by (simp add: loc_rows_def)
next
  case (Cons j ks)
  have "filter (\<lambda>r. fst r = k) (filter (\<lambda>r. fst r = j) (rows d))
          = (if j = k then filter (\<lambda>r. fst r = k) (rows d) else [])"
    by (induction "rows d") (auto simp: filter_empty_conv)
  with Cons show ?case by (simp add: loc_rows_def)
qed

lemma loc_both_old:
  "loc l (index_where (merge_outer l r) t) =
     Inr \<lparr>columns = columns l, rows = loc_rows l (index_where (merge_outer l r) t)\<rparr>" if "t \<noteq> Right_only"
  using that by (cases t) (auto intro!: loc_Inr simp: set_idx_both set_idx_left)

lemma loc_both_new:
  "loc r (index_where (merge_outer l r) t) =
     Inr \<lparr>columns = columns r, rows = loc_rows r (index_where (merge_outer l r) t)\<rparr>" if "t \<noteq> Left_only"
  using that by (cases t) (auto intro!: loc_Inr simp: set_idx_both set_idx_right)

lemma concat_replicate_eq_iff:
  "concat (map (\<lambda>k. replicate (f k) k) ks) = concat (map (\<lambda>k. replicate (g k) k) ks)
     \<longleftrightarrow> (\<forall>k \<in> set ks. f k = g k)"
proof
  assume eq: "concat (map (\<lambda>k. replicate (f k) k) ks) = concat (map (\<lambda>k. replicate (g k) k) ks)"
  show "\<forall>k \<in> set ks. f k = g k"
  proof
    fix k assume "k \<in> set ks"
    then have pos: "0 < count_list ks k"
      using count_list_0_iff [of ks k] by (cases "count_list ks k") auto
    from eq have "f k * count_list ks k = g k * count_list ks k"
      by (metis count_list_concat_replicate)
    with pos show "f k = g k" by simp
  qed
next
  assume "\<forall>k \<in> set ks. f k = g k"
  then show "concat (map (\<lambda>k. replicate (f k) k) ks) = concat (map (\<lambda>k. replicate (g k) k) ks)"
    by (induction ks) auto
qed


lemma compare_Inl_iff:
  "(\<exists>e. compare ln rn a b = Inl e) \<longleftrightarrow>
     index (fst a) \<noteq> index (fst b) \<or> columns (fst a) \<noteq> columns (fst b)"
  by (auto simp: compare_def Let_def)

lemma compare_Inl:
  "compare ln rn a b = Inl e \<Longrightarrow>
   e = ValueError
     ''Can only compare identically-labeled (both index and columns) DataFrame objects''"
  by (auto simp: compare_def Let_def split: if_splits)

lemma add_ref_cols_not_dup: "add_ref_cols self ob c \<noteq> Inl duplicate_index_error"
  by (auto simp: add_ref_cols_def loc_cols_def loc_def concat_axis1_def duplicate_index_error_def
      split: option.splits sum.splits if_splits)


lemma key_clash_same: "\<not> key_clash ks ks"
  by (auto simp: key_clash_def)

lemma diff_reconciled_unfold:
  "diff_reconciled self l r =
     (if key_clash (index l) (index r)
      then Inl (ValueError ''You are trying to merge on incompatible columns'')
      else
     (case compare (old_stem self) (new_stem self) (both_rows l l r) (both_rows r l r) of
        Inl e \<Rightarrow> Inl (RaisedFrom (ValueError ''Possibly duplicate index'') e)
      | Inr cmp \<Rightarrow>
          (case add_ref_cols self (fst (both_rows l l r)) (fillna (Str []) cmp) of
             Inl e \<Rightarrow> Inl e
           | Inr c \<Rightarrow>
               Inr \<lparr>changed = c,
                    added = \<lparr>columns = columns r,
                              rows = loc_rows r (index_where (merge_outer l r) Right_only)\<rparr>,
                    deleted = \<lparr>columns = columns l,
                                rows = loc_rows l (index_where (merge_outer l r) Left_only)\<rparr>\<rparr>)))"
  by (simp add: diff_reconciled_def merge_def Let_def loc_both_old loc_both_new both_rows_def
      split: sum.splits)

lemma index_loc:
  "index \<lparr>columns = c, rows = loc_rows d ks\<rparr>
     = concat (map (\<lambda>k. replicate (count_list (index d) k) k) ks)"
  by (simp add: index_def loc_rows_def map_concat comp_def map_fst_filter_key)

lemma index_both_rows_eq_iff:
  "index (fst (both_rows l l r)) = index (fst (both_rows r l r)) \<longleftrightarrow>
     (\<forall>k \<in> set (index l) \<inter> set (index r). count_list (index l) k = count_list (index r) k)"
  by (simp add: both_rows_def index_loc concat_replicate_eq_iff set_idx_both)

text \<open>
  When \<^verbatim>\<open>get_sheet_diff\<close> raises the duplicate-index error: merge accepts the keys, and
  the two selections of the rows present in both frames are labelled differently.
\<close>

lemma duplicate_error_iff:
  "diff_reconciled self l r = Inl duplicate_index_error \<longleftrightarrow>
     \<not> key_clash (index l) (index r)
     \<and> (columns l \<noteq> columns r
        \<or> (\<exists>k \<in> set (index l) \<inter> set (index r).
              count_list (index l) k \<noteq> count_list (index r) k))"
proof (cases "key_clash (index l) (index r)")
  case True
  then show ?thesis
    by (simp add: diff_reconciled_unfold duplicate_index_error_def)
next
  case False
  let ?c = "compare (old_stem self) (new_stem self) (both_rows l l r) (both_rows r l r)"
  have cols: "columns (fst (both_rows l l r)) = columns l"
    "columns (fst (both_rows r l r)) = columns r"
    by (simp_all add: both_rows_def)
  have "diff_reconciled self l r = Inl duplicate_index_error \<longleftrightarrow> (\<exists>e. ?c = Inl e)"
    using False
    by (auto simp: diff_reconciled_unfold duplicate_index_error_def
        add_ref_cols_not_dup [unfolded duplicate_index_error_def]
        dest: compare_Inl split: sum.splits)
  also have "\<dots> \<longleftrightarrow> index (fst (both_rows l l r)) \<noteq> index (fst (both_rows r l r))
                    \<or> columns l \<noteq> columns r"
    by (simp add: compare_Inl_iff cols)
  finally show ?thesis
    using False by (auto simp: index_both_rows_eq_iff)
qed

lemma get_sheet_diff_fst:
  "get_sheet_diff self df_old df_new = (res, df_old', df_new') \<Longrightarrow>
   delete_ignored_and_conflicting_cols self df_old df_new = (df_old', df_new')
   \<and> res = diff_reconciled self df_old' df_new'"
  by (auto simp: get_sheet_diff_def Let_def split: prod.splits)




section \<open>When a result is returned\<close>

lemma compare_cases:
  obtains (labels) "index (fst a) \<noteq> index (fst b) \<or> columns (fst a) \<noteq> columns (fst b)"
      "compare ln rn a b = Inl (ValueError
         ''Can only compare identically-labeled (both index and columns) DataFrame objects'')"
  | (cells) cmp where "index (fst a) = index (fst b)" "columns (fst a) = columns (fst b)"
      "compare ln rn a b = Inr cmp"
proof (cases "index (fst a) \<noteq> index (fst b) \<or> columns (fst a) \<noteq> columns (fst b)")
  case True
  then show ?thesis
    using labels by (simp add: compare_def)
next
  case False
  then obtain cmp where "compare ln rn a b = Inr cmp"
    by (simp add: compare_def Let_def)
  with False show ?thesis
    using cells by blast
qed

lemma index_compare_subset:
  assumes "compare ln rn a b = Inr cmp"
  shows "set (index cmp) \<subseteq> set (index (fst a))"
proof -
  from assms have "index cmp = map (\<lambda>p. fst (fst p)) (differing_rows a b)"
    by (simp add: compare_def index_def case_prod_unfold comp_def split: if_splits) auto
  then show ?thesis
    by (auto simp: index_def differing_rows_def dest!: set_zip_leftD)
qed

lemma index_fillna: "index (fillna v d) = index d"
  by (simp add: index_def fillna_def comp_def case_prod_unfold)

lemma concat_singletons: "concat (map (\<lambda>k. replicate (f k) k) ks) = ks" if "\<forall>k \<in> set ks. f k = 1"
  using that by (induction ks) auto

text \<open>
  The reference columns are added without an error when they are columns of the old frame
  and no index label of the comparison is carried by two of the old rows.
\<close>

lemma add_ref_cols_returns:
  assumes "set (index c) \<subseteq> set (index ob)"
    and "\<forall>k \<in> set (index c). count_list (index ob) k = 1"
    and "case other_ref_cols self of None \<Rightarrow> True | Some rc \<Rightarrow> set rc \<subseteq> set (columns ob)"
  shows "\<exists>c'. add_ref_cols self ob c = Inr c'"
proof (cases "other_ref_cols self")
  case None
  then show ?thesis by (simp add: add_ref_cols_def)
next
  case (Some rc)
  with assms(3) have cols: "find (\<lambda>c. c \<notin> set (columns ob)) rc = None"
    by (auto simp: find_None_iff)
  from assms(1) have rows: "loc ob (index c) = Inr \<lparr>columns = columns ob, rows = loc_rows ob (index c)\<rparr>"
    by (rule loc_Inr)
  have "map fst (loc_rows ob (index c)) = index c"
    unfolding index_loc_rows using assms(2) by (rule concat_singletons)
  then have "index \<lparr>columns = map (\<lambda>ref_col. (ref_col, ''-'')) rc,
                    rows = map (\<lambda>(k, vs). (k, map (cell_at (columns ob) vs) rc))
                               (loc_rows ob (index c))\<rparr> = index c"
    by (simp add: index_def comp_def case_prod_unfold)
  then show ?thesis
    by (simp add: add_ref_cols_def Some loc_cols_def cols rows concat_axis1_def)
qed

lemma count_index_both_rows:
  "count_list (index (fst (both_rows l l r))) k =
     (if k \<in> set (index l) \<and> k \<in> set (index r)
      then count_list (index l) k * count_list (index r) k * count_list (index l) k else 0)"
  by (simp add: both_rows_def index_loc count_list_concat_replicate count_idx_both)

text \<open>
  \<^verbatim>\<open>get_sheet_diff\<close> returns a result when merge accepts the keys, the two reconciled
  frames have their columns in the same order, every key of both frames occurs as often
  in one as in the other, and, with reference columns configured, these are columns of the
  reconciled old frame and no key of both frames is repeated.
\<close>

lemma diff_reconciled_returns:
  assumes "\<not> key_clash (index l) (index r)" and "columns l = columns r"
    and "\<forall>k \<in> set (index l) \<inter> set (index r). count_list (index l) k = count_list (index r) k"
    and "case other_ref_cols self of None \<Rightarrow> True
         | Some rc \<Rightarrow> set rc \<subseteq> set (columns l)
             \<and> (\<forall>k \<in> set (index l) \<inter> set (index r). count_list (index l) k = 1)"
  shows "\<exists>res. diff_reconciled self l r = Inr res"
proof -
  let ?a = "both_rows l l r" and ?b = "both_rows r l r"
  have "index (fst ?a) = index (fst ?b)"
    using assms(3) by (simp add: index_both_rows_eq_iff)
  moreover have "columns (fst ?a) = columns (fst ?b)"
    using assms(2) by (simp add: both_rows_def)
  ultimately obtain cmp where cmp: "compare (old_stem self) (new_stem self) ?a ?b = Inr cmp"
    by (cases rule: compare_cases [of ?a ?b "old_stem self" "new_stem self"]) auto
  have sub: "set (index (fillna (Str []) cmp)) \<subseteq> set (index (fst ?a))"
    using index_compare_subset [OF cmp] by (simp add: index_fillna)
  have once: "\<forall>k \<in> set (index (fillna (Str []) cmp)). count_list (index (fst ?a)) k = 1"
    if "other_ref_cols self = Some rc" for rc
  proof
    fix k assume "k \<in> set (index (fillna (Str []) cmp))"
    with sub have "k \<in> set (index (fst ?a))"
      by blast
    then have shared: "k \<in> set (index l) \<inter> set (index r)"
      by (simp add: both_rows_def index_loc set_concat_replicate set_idx_both count_list_0_iff
          split: if_splits) 
    with assms(3,4) that have "count_list (index l) k = 1" "count_list (index r) k = 1"
      by auto
    with shared show "count_list (index (fst ?a)) k = 1"
      by (simp add: count_index_both_rows)
  qed
  have "\<exists>c'. add_ref_cols self (fst ?a) (fillna (Str []) cmp) = Inr c'"
  proof (cases "other_ref_cols self")
    case None
    then show ?thesis by (simp add: add_ref_cols_def)
  next
    case (Some rc)
    with assms(4) have "case other_ref_cols self of None \<Rightarrow> True
        | Some rc \<Rightarrow> set rc \<subseteq> set (columns (fst ?a))"
      by (simp add: both_rows_def)
    with sub once [OF Some] show ?thesis
      by (rule add_ref_cols_returns)
  qed
  with cmp assms(1) show ?thesis
    by (auto simp: diff_reconciled_unfold)
qed

section \<open>Added and deleted rows\<close>

text \<open>The two frames after the reconciliation of their columns, in terms of the frames given.\<close>

lemma drop_cols_filter:
  assumes "\<And>c. c \<in> set (columns d) \<Longrightarrow> c \<notin> set labels \<longleftrightarrow> P c"
  shows "drop_cols d labels =
     \<lparr>columns = filter P (columns d),
      rows = map (\<lambda>(k, vs). (k, map snd (filter (\<lambda>(c, v). P c) (zip (columns d) vs)))) (rows d)\<rparr>"
proof -
  have "filter (\<lambda>c. c \<notin> set labels) (columns d) = filter P (columns d)"
    using assms by (auto intro: filter_cong)
  moreover have "filter (\<lambda>(c, v). c \<notin> set labels) (zip (columns d) vs)
                   = filter (\<lambda>(c, v). P c) (zip (columns d) vs)" for vs :: "cell list"
    using assms by (auto intro!: filter_cong dest: set_zip_leftD)
  ultimately show ?thesis
    by (simp add: drop_cols_def)
qed

lemma reconciled_frames:
  assumes "delete_ignored_and_conflicting_cols self df_old df_new = (df_old', df_new')"
  shows "df_old' =
     \<lparr>columns = filter (\<lambda>c. c \<in> set (columns df_new) \<and> c \<notin> set (ignored_cols self)) (columns df_old),
      rows = map (\<lambda>(k, vs). (k, map snd (filter
                     (\<lambda>(c, v). c \<in> set (columns df_new) \<and> c \<notin> set (ignored_cols self))
                     (zip (columns df_old) vs)))) (rows df_old)\<rparr>"
    and "df_new' =
     \<lparr>columns = filter (\<lambda>c. c \<in> set (columns df_old) \<and> c \<notin> set (ignored_cols self)) (columns df_new),
      rows = map (\<lambda>(k, vs). (k, map snd (filter
                     (\<lambda>(c, v). c \<in> set (columns df_old) \<and> c \<notin> set (ignored_cols self))
                     (zip (columns df_new) vs)))) (rows df_new)\<rparr>"
proof -
  let ?D = "index_union (symmetric_difference (columns df_old) (columns df_new)) (ignored_cols self)"
  from assms have old: "df_old' = drop_cols df_old (intersection (columns df_old) ?D)"
    and new: "df_new' = drop_cols df_new (intersection (columns df_new) ?D)"
    by (simp_all add: delete_ignored_and_conflicting_cols_def Let_def)
  show "df_old' =
     \<lparr>columns = filter (\<lambda>c. c \<in> set (columns df_new) \<and> c \<notin> set (ignored_cols self)) (columns df_old),
      rows = map (\<lambda>(k, vs). (k, map snd (filter
                     (\<lambda>(c, v). c \<in> set (columns df_new) \<and> c \<notin> set (ignored_cols self))
                     (zip (columns df_old) vs)))) (rows df_old)\<rparr>"
    unfolding old
    by (rule drop_cols_filter) (auto simp: intersection_def set_cols_to_delete)
  show "df_new' =
     \<lparr>columns = filter (\<lambda>c. c \<in> set (columns df_old) \<and> c \<notin> set (ignored_cols self)) (columns df_new),
      rows = map (\<lambda>(k, vs). (k, map snd (filter
                     (\<lambda>(c, v). c \<in> set (columns df_old) \<and> c \<notin> set (ignored_cols self))
                     (zip (columns df_new) vs)))) (rows df_new)\<rparr>"
    unfolding new
    by (rule drop_cols_filter) (auto simp: intersection_def set_cols_to_delete)
qed

lemma fst_row_index: "(k, vs) \<in> set (rows d) \<Longrightarrow> k \<in> set (index d)"
  by (force simp: index_def)

lemma set_loc_rows_map:
  assumes "rows d = map (\<lambda>(k, vs). (k, g vs)) rs"
  shows "set (loc_rows d ks) = (\<lambda>(k, vs). (k, g vs)) ` {row \<in> set rs. fst row \<in> set ks}"
  unfolding set_loc_rows assms by force

text \<open>
  C3, as amended.  When \<^verbatim>\<open>get_sheet_diff\<close> returns a result for the sheets \<open>df_old\<close> and
  \<open>df_new\<close>, the columns of \<^verbatim>\<open>added\<close> are the columns of the new sheet that the old sheet
  has too and that are not ignored, and its rows are the rows of the new sheet whose key is
  no key of the old sheet, each cut down to these columns; \<^verbatim>\<open>deleted\<close> likewise, with old
  and new exchanged.  A result is returned at least when merge accepts the keys, the columns
  left in the two sheets are in the same order, the keys of both sheets occur as often in
  one as in the other and no reference columns are configured.
\<close>

theorem added_deleted_rows:
  assumes "get_sheet_diff self df_old df_new = (r, df_old', df_new')"
  shows "(\<forall>res. r = Inr res \<longrightarrow>
           columns (added res)
             = filter (\<lambda>c. c \<in> set (columns df_old) \<and> c \<notin> set (ignored_cols self))
                      (columns df_new)
           \<and> set (rows (added res))
               = (\<lambda>(k, vs). (k, map snd (filter
                      (\<lambda>(c, v). c \<in> set (columns df_old) \<and> c \<notin> set (ignored_cols self))
                      (zip (columns df_new) vs))))
                 ` {row \<in> set (rows df_new). fst row \<notin> set (index df_old)}
           \<and> columns (deleted res)
               = filter (\<lambda>c. c \<in> set (columns df_new) \<and> c \<notin> set (ignored_cols self))
                        (columns df_old)
           \<and> set (rows (deleted res))
               = (\<lambda>(k, vs). (k, map snd (filter
                      (\<lambda>(c, v). c \<in> set (columns df_new) \<and> c \<notin> set (ignored_cols self))
                      (zip (columns df_old) vs))))
                 ` {row \<in> set (rows df_old). fst row \<notin> set (index df_new)})
     \<and> (\<not> key_clash (index df_old) (index df_new) \<and> columns df_old' = columns df_new'
          \<and> (\<forall>k \<in> set (index df_old) \<inter> set (index df_new).
                count_list (index df_old) k = count_list (index df_new) k)
          \<and> other_ref_cols self = None
        \<longrightarrow> (\<exists>res. r = Inr res))"
proof (intro conjI allI impI)
  from assms have rec: "delete_ignored_and_conflicting_cols self df_old df_new = (df_old', df_new')"
    and r: "r = diff_reconciled self df_old' df_new'"
    by (auto dest: get_sheet_diff_fst)
  from rec have idx: "index df_old' = index df_old" "index df_new' = index df_new"
    using index_reconciled by blast+
  note frames = reconciled_frames [OF rec]
  have rows_old: "rows df_old' = map (\<lambda>(k, vs). (k, map snd (filter
                     (\<lambda>(c, v). c \<in> set (columns df_new) \<and> c \<notin> set (ignored_cols self))
                     (zip (columns df_old) vs)))) (rows df_old)"
    and rows_new: "rows df_new' = map (\<lambda>(k, vs). (k, map snd (filter
                     (\<lambda>(c, v). c \<in> set (columns df_old) \<and> c \<notin> set (ignored_cols self))
                     (zip (columns df_new) vs)))) (rows df_new)"
    by (subst frames, simp)+
  have cols_old: "columns df_old'
      = filter (\<lambda>c. c \<in> set (columns df_new) \<and> c \<notin> set (ignored_cols self)) (columns df_old)"
    and cols_new: "columns df_new'
      = filter (\<lambda>c. c \<in> set (columns df_old) \<and> c \<notin> set (ignored_cols self)) (columns df_new)"
    by (subst frames, simp)+
  {
    fix res assume "r = Inr res"
    with r have "diff_reconciled self df_old' df_new' = Inr res"
      by simp
    then have a: "added res = \<lparr>columns = columns df_new',
          rows = loc_rows df_new' (index_where (merge_outer df_old' df_new') Right_only)\<rparr>"
      and d: "deleted res = \<lparr>columns = columns df_old',
          rows = loc_rows df_old' (index_where (merge_outer df_old' df_new') Left_only)\<rparr>"
      by (auto simp: diff_reconciled_unfold split: if_splits sum.splits)
    show "columns (added res)
             = filter (\<lambda>c. c \<in> set (columns df_old) \<and> c \<notin> set (ignored_cols self))
                      (columns df_new)"
      by (simp add: a cols_new)
    show "columns (deleted res)
               = filter (\<lambda>c. c \<in> set (columns df_new) \<and> c \<notin> set (ignored_cols self))
                        (columns df_old)"
      by (simp add: d cols_old)
    have "{row \<in> set (rows df_new). fst row \<in> set (index_where (merge_outer df_old' df_new') Right_only)}
            = {row \<in> set (rows df_new). fst row \<notin> set (index df_old)}"
      by (auto simp: set_idx_right idx fst_row_index)
    then show "set (rows (added res))
               = (\<lambda>(k, vs). (k, map snd (filter
                      (\<lambda>(c, v). c \<in> set (columns df_old) \<and> c \<notin> set (ignored_cols self))
                      (zip (columns df_new) vs))))
                 ` {row \<in> set (rows df_new). fst row \<notin> set (index df_old)}"
      by (simp add: a set_loc_rows_map [OF rows_new])
    have "{row \<in> set (rows df_old). fst row \<in> set (index_where (merge_outer df_old' df_new') Left_only)}
            = {row \<in> set (rows df_old). fst row \<notin> set (index df_new)}"
      by (auto simp: set_idx_left idx fst_row_index)
    then show "set (rows (deleted res))
               = (\<lambda>(k, vs). (k, map snd (filter
                      (\<lambda>(c, v). c \<in> set (columns df_new) \<and> c \<notin> set (ignored_cols self))
                      (zip (columns df_old) vs))))
                 ` {row \<in> set (rows df_old). fst row \<notin> set (index df_new)}"
      by (simp add: d set_loc_rows_map [OF rows_old])
  }
  assume ok: "\<not> key_clash (index df_old) (index df_new) \<and> columns df_old' = columns df_new'
          \<and> (\<forall>k \<in> set (index df_old) \<inter> set (index df_new).
                count_list (index df_old) k = count_list (index df_new) k)
          \<and> other_ref_cols self = None"
  then have "\<exists>res. diff_reconciled self df_old' df_new' = Inr res"
    by (intro diff_reconciled_returns) (simp_all add: idx)
  with r show "\<exists>res. r = Inr res"
    by simp
qed

lemma ex_sheet_diff:
  "get_sheet_diff ex_self ex_old ex_new =
     (Inr \<lparr>changed = \<lparr>columns = [], rows = []\<rparr>,
           added = \<lparr>columns = [''val''], rows = [(Num 3, [Str ''c''])]\<rparr>,
           deleted = \<lparr>columns = [''val''], rows = [(Num 2, [Str ''b''])]\<rparr>\<rparr>,
      \<lparr>columns = [''val''], rows = [(Num 1, [Str ''a'']), (Num 2, [Str ''b''])]\<rparr>,
      \<lparr>columns = [''val''], rows = [(Num 1, [Str ''a'']), (Num 3, [Str ''c''])]\<rparr>)"
  by code_simp

theorem added_deleted_rows_witness:
  "columns (added \<lparr>changed = \<lparr>columns = [], rows = []\<rparr>,
           added = \<lparr>columns = [''val''], rows = [(Num 3, [Str ''c''])]\<rparr>,
           deleted = \<lparr>columns = [''val''], rows = [(Num 2, [Str ''b''])]\<rparr>\<rparr>)
     = filter (\<lambda>c. c \<in> set (columns ex_old) \<and> c \<notin> set (ignored_cols ex_self)) (columns ex_new)
   \<and> set (rows (added \<lparr>changed = \<lparr>columns = [], rows = []\<rparr>,
           added = \<lparr>columns = [''val''], rows = [(Num 3, [Str ''c''])]\<rparr>,
           deleted = \<lparr>columns = [''val''], rows = [(Num 2, [Str ''b''])]\<rparr>\<rparr>))
     = (\<lambda>(k, vs). (k, map snd (filter
            (\<lambda>(c, v). c \<in> set (columns ex_old) \<and> c \<notin> set (ignored_cols ex_self))
            (zip (columns ex_new) vs))))
       ` {row \<in> set (rows ex_new). fst row \<notin> set (index ex_old)}"
  using added_deleted_rows [OF ex_sheet_diff] by blast

text \<open>
  C3 as stated fails: the row of \<open>ex_new\<close> with the key 3, a key of the new sheet only, has
  a cell in the column \<^verbatim>\<open>notes\<close>; the row of \<^verbatim>\<open>added\<close> with that key has not, because
  \<^verbatim>\<open>notes\<close> is ignored and has been removed from the sheet before the rows were selected.
\<close>

theorem added_row_not_full:
  "columns ex_new = [''val'', ''notes'']
   \<and> (Num 3, [Str ''c'', Str ''z'']) \<in> set (rows ex_new)
   \<and> Num 3 \<notin> set (index ex_old)
   \<and> fst (get_sheet_diff ex_self ex_old ex_new) =
       Inr \<lparr>changed = \<lparr>columns = [], rows = []\<rparr>,
            added = \<lparr>columns = [''val''], rows = [(Num 3, [Str ''c''])]\<rparr>,
            deleted = \<lparr>columns = [''val''], rows = [(Num 2, [Str ''b''])]\<rparr>\<rparr>"
  by code_simp

section \<open>Keys repeated in one sheet only\<close>

lemma length_filter_key: "length (filter (\<lambda>r. fst r = k) rs) = count_list (map fst rs) k"
  by (induction rs) auto

lemma length_concat_replicate: "length (concat (replicate n xs)) = n * length xs"
  by (induction n) auto

text \<open>
  C10 as stated fails: in \<open>dup2_old\<close> the key 1 occurs twice and it does not occur in
  \<open>single2_new\<close>, and the comparison of the two raises the duplicate-index error, because
  of the key 2.
\<close>

theorem one_sided_duplicates_error:
  "count_list (index dup2_old) (Num 1) = 2 \<and> Num 1 \<notin> set (index single2_new)
   \<and> fst (get_sheet_diff ex_self dup2_old single2_new) = Inl duplicate_index_error"
  by code_simp

text \<open>
  C10, as amended.  Let the key \<open>k\<close> occur \<open>m > 1\<close> times in the old sheet and not at all in
  the new one.  The duplicate-index error is raised exactly when merge accepts the keys and
  the column labels of the two reconciled frames differ or some other key, one that occurs
  in both sheets, occurs a different number of times in each.  When merge accepts the keys,
  the reconciled frames have the same column labels, every key of both sheets occurs as
  often in one as in the other, and the reference columns, if any are configured, are
  columns of the reconciled old frame and no key of both sheets is repeated, then a result
  is returned, and its rows of \<^verbatim>\<open>deleted\<close> with the key \<open>k\<close> are the \<open>m\<close> old rows with that
  key, \<open>m\<close> times over: \<open>m * m\<close> rows.  The same holds for a key of the new sheet alone and
  \<^verbatim>\<open>added\<close>.
\<close>

theorem one_sided_duplicates:
  assumes "get_sheet_diff self df_old df_new = (res, df_old', df_new')"
  shows "(k \<notin> set (index df_new) \<and> count_list (index df_old) k = m \<and> 1 < m \<longrightarrow>
           (res = Inl duplicate_index_error \<longleftrightarrow>
              \<not> key_clash (index df_old) (index df_new)
              \<and> (columns df_old' \<noteq> columns df_new'
                 \<or> (\<exists>j \<in> set (index df_old) \<inter> set (index df_new).
                       j \<noteq> k \<and> count_list (index df_old) j \<noteq> count_list (index df_new) j)))
           \<and> (\<not> key_clash (index df_old) (index df_new)
                \<and> columns df_old' = columns df_new'
                \<and> (\<forall>j \<in> set (index df_old) \<inter> set (index df_new).
                      count_list (index df_old) j = count_list (index df_new) j)
                \<and> (case other_ref_cols self of None \<Rightarrow> True
                    | Some rc \<Rightarrow> set rc \<subseteq> set (columns df_old')
                        \<and> (\<forall>j \<in> set (index df_old) \<inter> set (index df_new).
                              count_list (index df_old) j = 1))
              \<longrightarrow> (\<exists>d. res = Inr d
                 \<and> filter (\<lambda>r. fst r = k) (rows (deleted d))
                     = concat (replicate m (filter (\<lambda>r. fst r = k) (rows df_old')))
                 \<and> length (filter (\<lambda>r. fst r = k) (rows (deleted d))) = m * m)))
       \<and> (k \<notin> set (index df_old) \<and> count_list (index df_new) k = m \<and> 1 < m \<longrightarrow>
           (res = Inl duplicate_index_error \<longleftrightarrow>
              \<not> key_clash (index df_old) (index df_new)
              \<and> (columns df_old' \<noteq> columns df_new'
                 \<or> (\<exists>j \<in> set (index df_old) \<inter> set (index df_new).
                       j \<noteq> k \<and> count_list (index df_old) j \<noteq> count_list (index df_new) j)))
           \<and> (\<not> key_clash (index df_old) (index df_new)
                \<and> columns df_old' = columns df_new'
                \<and> (\<forall>j \<in> set (index df_old) \<inter> set (index df_new).
                      count_list (index df_old) j = count_list (index df_new) j)
                \<and> (case other_ref_cols self of None \<Rightarrow> True
                    | Some rc \<Rightarrow> set rc \<subseteq> set (columns df_old')
                        \<and> (\<forall>j \<in> set (index df_old) \<inter> set (index df_new).
                              count_list (index df_old) j = 1))
              \<longrightarrow> (\<exists>d. res = Inr d
                 \<and> filter (\<lambda>r. fst r = k) (rows (added d))
                     = concat (replicate m (filter (\<lambda>r. fst r = k) (rows df_new')))
                 \<and> length (filter (\<lambda>r. fst r = k) (rows (added d))) = m * m)))"
proof -
  from assms have rec: "delete_ignored_and_conflicting_cols self df_old df_new = (df_old', df_new')"
    and res: "res = diff_reconciled self df_old' df_new'"
    by (auto dest: get_sheet_diff_fst)
  from rec have idx: "index df_old' = index df_old" "index df_new' = index df_new"
    using index_reconciled by blast+
  have dup: "res = Inl duplicate_index_error \<longleftrightarrow>
       \<not> key_clash (index df_old) (index df_new)
       \<and> (columns df_old' \<noteq> columns df_new'
          \<or> (\<exists>j \<in> set (index df_old) \<inter> set (index df_new).
                count_list (index df_old) j \<noteq> count_list (index df_new) j))"
    unfolding res duplicate_error_iff idx ..
  have ret: "\<exists>d. res = Inr d"
    if "\<not> key_clash (index df_old) (index df_new)
        \<and> columns df_old' = columns df_new'
        \<and> (\<forall>j \<in> set (index df_old) \<inter> set (index df_new).
              count_list (index df_old) j = count_list (index df_new) j)
        \<and> (case other_ref_cols self of None \<Rightarrow> True
            | Some rc \<Rightarrow> set rc \<subseteq> set (columns df_old')
                \<and> (\<forall>j \<in> set (index df_old) \<inter> set (index df_new).
                      count_list (index df_old) j = 1))"
    unfolding res using that
    by (intro diff_reconciled_returns) (auto simp: idx split: option.splits)
  have del: "filter (\<lambda>r. fst r = k) (rows (deleted d))
               = concat (replicate (count_list (index df_old) k) (filter (\<lambda>r. fst r = k) (rows df_old')))"
    if "res = Inr d" "k \<notin> set (index df_new)" for d
  proof -
    from that(1) have "deleted d = \<lparr>columns = columns df_old',
        rows = loc_rows df_old' (index_where (merge_outer df_old' df_new') Left_only)\<rparr>"
      by (auto simp: res diff_reconciled_unfold split: if_splits sum.splits)
    with that(2) show ?thesis
      by (simp add: filter_loc_rows count_idx_left idx)
  qed
  have add: "filter (\<lambda>r. fst r = k) (rows (added d))
               = concat (replicate (count_list (index df_new) k) (filter (\<lambda>r. fst r = k) (rows df_new')))"
    if "res = Inr d" "k \<notin> set (index df_old)" for d
  proof -
    from that(1) have "added d = \<lparr>columns = columns df_new',
        rows = loc_rows df_new' (index_where (merge_outer df_old' df_new') Right_only)\<rparr>"
      by (auto simp: res diff_reconciled_unfold split: if_splits sum.splits)
    with that(2) show ?thesis
      by (simp add: filter_loc_rows count_idx_right idx)
  qed
  have len_old: "length (filter (\<lambda>r. fst r = k) (rows df_old')) = count_list (index df_old) k"
    using idx by (simp add: length_filter_key index_def)
  have len_new: "length (filter (\<lambda>r. fst r = k) (rows df_new')) = count_list (index df_new) k"
    using idx by (simp add: length_filter_key index_def)
  show ?thesis
  proof (intro conjI impI; (elim conjE)?)
    assume "k \<notin> set (index df_new)"
    then show "res = Inl duplicate_index_error \<longleftrightarrow>
       \<not> key_clash (index df_old) (index df_new)
       \<and> (columns df_old' \<noteq> columns df_new'
          \<or> (\<exists>j \<in> set (index df_old) \<inter> set (index df_new).
                j \<noteq> k \<and> count_list (index df_old) j \<noteq> count_list (index df_new) j))"
      unfolding dup by auto
  next
    assume "k \<notin> set (index df_old)"
    then show "res = Inl duplicate_index_error \<longleftrightarrow>
       \<not> key_clash (index df_old) (index df_new)
       \<and> (columns df_old' \<noteq> columns df_new'
          \<or> (\<exists>j \<in> set (index df_old) \<inter> set (index df_new).
                j \<noteq> k \<and> count_list (index df_old) j \<noteq> count_list (index df_new) j))"
      unfolding dup by auto
  next
    assume k: "k \<notin> set (index df_new)" "count_list (index df_old) k = m"
      and "\<not> key_clash (index df_old) (index df_new)" "columns df_old' = columns df_new'"
        "\<forall>j \<in> set (index df_old) \<inter> set (index df_new).
              count_list (index df_old) j = count_list (index df_new) j"
        "case other_ref_cols self of None \<Rightarrow> True
            | Some rc \<Rightarrow> set rc \<subseteq> set (columns df_old')
                \<and> (\<forall>j \<in> set (index df_old) \<inter> set (index df_new).
                      count_list (index df_old) j = 1)"
    then obtain d where d: "res = Inr d"
      using ret by blast
    from del [OF d k(1)] k(2) len_old
    have "filter (\<lambda>r. fst r = k) (rows (deleted d))
                     = concat (replicate m (filter (\<lambda>r. fst r = k) (rows df_old')))"
      and "length (filter (\<lambda>r. fst r = k) (rows (deleted d))) = m * m"
      by (simp_all add: length_concat_replicate)
    with d show "\<exists>d. res = Inr d
                 \<and> filter (\<lambda>r. fst r = k) (rows (deleted d))
                     = concat (replicate m (filter (\<lambda>r. fst r = k) (rows df_old')))
                 \<and> length (filter (\<lambda>r. fst r = k) (rows (deleted d))) = m * m"
      by blast
  next
    assume k: "k \<notin> set (index df_old)" "count_list (index df_new) k = m"
      and "\<not> key_clash (index df_old) (index df_new)" "columns df_old' = columns df_new'"
        "\<forall>j \<in> set (index df_old) \<inter> set (index df_new).
              count_list (index df_old) j = count_list (index df_new) j"
        "case other_ref_cols self of None \<Rightarrow> True
            | Some rc \<Rightarrow> set rc \<subseteq> set (columns df_old')
                \<and> (\<forall>j \<in> set (index df_old) \<inter> set (index df_new).
                      count_list (index df_old) j = 1)"
    then obtain d where d: "res = Inr d"
      using ret by blast
    from add [OF d k(1)] k(2) len_new
    have "filter (\<lambda>r. fst r = k) (rows (added d))
                     = concat (replicate m (filter (\<lambda>r. fst r = k) (rows df_new')))"
      and "length (filter (\<lambda>r. fst r = k) (rows (added d))) = m * m"
      by (simp_all add: length_concat_replicate)
    with d show "\<exists>d. res = Inr d
                 \<and> filter (\<lambda>r. fst r = k) (rows (added d))
                     = concat (replicate m (filter (\<lambda>r. fst r = k) (rows df_new')))
                 \<and> length (filter (\<lambda>r. fst r = k) (rows (added d))) = m * m"
      by blast
  qed
qed

lemma dup_other_diff:
  "get_sheet_diff ex_self dup_old other_new =
     (Inr \<lparr>changed = \<lparr>columns = [], rows = []\<rparr>,
           added = \<lparr>columns = [''val''], rows = [(Num 3, [Str ''c''])]\<rparr>,
           deleted = \<lparr>columns = [''val''],
                      rows = [(Num 1, [Str ''a'']), (Num 1, [Str ''b'']),
                              (Num 1, [Str ''a'']), (Num 1, [Str ''b''])]\<rparr>\<rparr>,
      dup_old, other_new)"
  by code_simp

theorem one_sided_duplicates_witness:
  "\<exists>d. fst (get_sheet_diff ex_self dup_old other_new) = Inr d
     \<and> filter (\<lambda>r. fst r = Num 1) (rows (deleted d))
         = concat (replicate 2 (filter (\<lambda>r. fst r = Num 1) (rows dup_old)))
     \<and> length (filter (\<lambda>r. fst r = Num 1) (rows (deleted d))) = 2 * 2"
proof -
  have "Num 1 \<notin> set (index other_new) \<and> count_list (index dup_old) (Num 1) = 2 \<and> (1::nat) < 2"
    by (simp add: index_def dup_old_def other_new_def)
  moreover have "\<not> key_clash (index dup_old) (index other_new)
      \<and> columns dup_old = columns other_new
      \<and> (\<forall>j \<in> set (index dup_old) \<inter> set (index other_new).
            count_list (index dup_old) j = count_list (index other_new) j)
      \<and> (case other_ref_cols ex_self of None \<Rightarrow> True
          | Some rc \<Rightarrow> set rc \<subseteq> set (columns dup_old)
              \<and> (\<forall>j \<in> set (index dup_old) \<inter> set (index other_new).
                    count_list (index dup_old) j = 1))"
    by (simp add: index_def dup_old_def other_new_def ex_self_def key_clash_def is_Str_def is_Num_def)
  ultimately show ?thesis
    unfolding dup_other_diff fst_conv
    using one_sided_duplicates [OF dup_other_diff, of "Num 1" 2] by blast
qed

section \<open>Comparing a sheet with itself\<close>

lemma row_mask_same: "True \<notin> set (row_mask das dbs vs vs)"
  by (auto simp: row_mask_def differ_def in_set_zip)

lemma filter_zip_same: "(\<And>x. \<not> P (x, x)) \<Longrightarrow> filter P (zip xs xs) = []"
  by (induction xs) auto

lemma col_mask_no_True:
  "(\<And>m. m \<in> set masks \<Longrightarrow> True \<notin> set m) \<Longrightarrow> True \<notin> set (col_mask n masks)"
  by (auto simp: col_mask_def list_ex_iff in_set_conv_nth)

lemma no_kept_columns:
  "True \<notin> set cmask \<Longrightarrow>
   concat (map (\<lambda>(keep, c). if keep then f c else []) (zip cmask cs)) = []"
  by (induction cmask cs rule: list_induct2') auto

lemma compare_same: "compare ln rn a a = Inr \<lparr>columns = [], rows = []\<rparr>"
proof -
  have "True \<notin> set m" if "m \<in> set (cell_masks a a)" for m
    using that by (auto simp: cell_masks_def in_set_zip row_mask_same)
  then have "True \<notin> set (col_mask (length (columns (fst a))) (cell_masks a a))"
    by (rule col_mask_no_True)
  moreover have "differing_rows a a = []"
    unfolding differing_rows_def by (rule filter_zip_same) (auto simp: row_mask_same)
  ultimately show ?thesis
    by (simp add: compare_def no_kept_columns)
qed

lemma reconcile_same:
  "\<exists>t'. delete_ignored_and_conflicting_cols self t t = (t', t') \<and> index t' = index t"
  by (simp add: delete_ignored_and_conflicting_cols_def Let_def index_drop_cols)

lemma loc_rows_Nil: "set ks = {} \<Longrightarrow> loc_rows d ks = []"
  by (simp add: loc_rows_def)

text \<open>
  C8.  Comparing a sheet whose keys are all different with itself returns a result whose
  \<^verbatim>\<open>changed\<close>, \<^verbatim>\<open>added\<close> and \<^verbatim>\<open>deleted\<close> tables are empty: \<^verbatim>\<open>changed\<close> has no
  column and no row, the other two have no row.
\<close>

theorem self_compare_empty:
  assumes "distinct (index t)"
  shows "\<exists>res. fst (get_sheet_diff self t t) = Inr res
           \<and> columns (changed res) = [] \<and> rows (changed res) = []
           \<and> rows (added res) = [] \<and> rows (deleted res) = []
           \<and> empty_df (changed res) \<and> empty_df (added res) \<and> empty_df (deleted res)"
proof -
  obtain t' where rec: "delete_ignored_and_conflicting_cols self t t = (t', t')"
    using reconcile_same by blast
  have cmp: "compare (old_stem self) (new_stem self) (both_rows t' t' t') (both_rows t' t' t')
               = Inr \<lparr>columns = [], rows = []\<rparr>"
    by (rule compare_same)
  have fill: "fillna (Str []) \<lparr>columns = [], rows = []\<rparr> = (\<lparr>columns = [], rows = []\<rparr> :: (string \<times> string) df)"
    by (simp add: fillna_def)
  have ref: "add_ref_cols self (fst (both_rows t' t' t')) \<lparr>columns = [], rows = []\<rparr>
               = Inr \<lparr>columns = [], rows = []\<rparr>"
    by (simp add: add_ref_cols_def empty_df_def split: option.splits)
  have "diff_reconciled self t' t' =
          Inr \<lparr>changed = \<lparr>columns = [], rows = []\<rparr>,
               added = \<lparr>columns = columns t', rows = []\<rparr>,
               deleted = \<lparr>columns = columns t', rows = []\<rparr>\<rparr>"
    by (simp add: diff_reconciled_unfold key_clash_same cmp fill ref loc_rows_Nil
        set_idx_left set_idx_right)
  with rec show ?thesis
    by (simp add: get_sheet_diff_def empty_df_def)
qed

theorem self_compare_empty_witness:
  "\<exists>res. fst (get_sheet_diff ex_self ex_old ex_old) = Inr res
           \<and> columns (changed res) = [] \<and> rows (changed res) = []
           \<and> rows (added res) = [] \<and> rows (deleted res) = []
           \<and> empty_df (changed res) \<and> empty_df (added res) \<and> empty_df (deleted res)"
  by (rule self_compare_empty) (simp add: ex_old_def index_def)

section \<open>The rows of the changed table\<close>



lemma zip_same_map:
  "map f xs = map f ys \<Longrightarrow> (x, y) \<in> set (zip xs ys) \<Longrightarrow> f x = f y"
proof -
  assume eq: "map f xs = map f ys" and "(x, y) \<in> set (zip xs ys)"
  then obtain i where i: "xs ! i = x" "ys ! i = y" "i < length xs" "i < length ys"
    by (auto simp: in_set_zip)
  then have "f x = map f xs ! i" "f y = map f ys ! i"
    by simp_all
  with eq show "f x = f y" by simp
qed





lemma index_concat_axis1: "concat_axis1 a b = Inr c \<Longrightarrow> index c = index b"
proof -
  assume c: "concat_axis1 a b = Inr c"
  then have eq: "map fst (rows a) = map fst (rows b)"
    by (simp add: concat_axis1_def index_def split: if_splits)
  then have len: "length (rows a) = length (rows b)"
    by (metis length_map)
  from c have "index c = map (\<lambda>p. fst (fst p)) (zip (rows a) (rows b))"
    by (auto simp: concat_axis1_def index_def split: if_splits)
  also have "\<dots> = map fst (map fst (zip (rows a) (rows b)))"
    by simp
  also have "\<dots> = map fst (rows a)"
    using len by simp
  finally show "index c = index b"
    using eq by (simp add: index_def)
qed

lemma index_add_ref_cols: "add_ref_cols self ob c = Inr c' \<Longrightarrow> index c' = index c"
  by (auto simp: add_ref_cols_def dest: index_concat_axis1 split: option.splits sum.splits if_splits)

lemma set_both_rows: "set (rows (fst (both_rows d l r))) \<subseteq> set (rows d)"
  by (auto simp: both_rows_def set_loc_rows)

lemma diff_reconciled_Inr:
  assumes "diff_reconciled self l r = Inr res"
  obtains cmp where
    "compare (old_stem self) (new_stem self) (both_rows l l r) (both_rows r l r) = Inr cmp"
    "add_ref_cols self (fst (both_rows l l r)) (fillna (Str []) cmp) = Inr (changed res)"
  using assms by (auto simp: diff_reconciled_unfold split: if_splits sum.splits)

lemma add_ref_cols_unchanged:
  "empty_df c \<Longrightarrow> add_ref_cols self ob c = Inr c"
  by (simp add: add_ref_cols_def split: option.splits)

lemma add_ref_cols_Inr:
  assumes "add_ref_cols self ob c = Inr c'" and "other_ref_cols self = Some rc" and "rc \<noteq> []"
    and "\<not> empty_df c"
  shows "set rc \<subseteq> set (columns ob)"
    and "columns c' = map (\<lambda>r. (r, ''-'')) rc @ columns c"
    and "rows c' = map (\<lambda>((k, xs), (k', ys)). (k, xs @ ys))
                    (zip (map (\<lambda>(k, vs). (k, map (cell_at (columns ob) vs) rc))
                              (loc_rows ob (index c)))
                         (rows c))"
    and "map fst (loc_rows ob (index c)) = index c"
proof -
  from assms obtain df_ref where ref: "loc_cols ob (index c) rc = Inr df_ref"
    and cat: "concat_axis1 \<lparr>columns = map (\<lambda>r. (r, ''-'')) rc, rows = rows df_ref\<rparr> c = Inr c'"
    by (auto simp: add_ref_cols_def split: sum.splits)
  from ref have none: "find (\<lambda>c. c \<notin> set (columns ob)) rc = None"
    by (auto simp: loc_cols_def split: option.splits)
  then show "set rc \<subseteq> set (columns ob)"
    by (auto simp: find_None_iff)
  from ref none have rows_ref:
    "rows df_ref = map (\<lambda>(k, vs). (k, map (cell_at (columns ob) vs) rc)) (loc_rows ob (index c))"
    by (auto simp: loc_cols_def loc_def split: option.splits sum.splits)
  from cat have same: "map fst (rows df_ref) = index c"
    and c': "c' = \<lparr>columns = map (\<lambda>r. (r, ''-'')) rc @ columns c,
                   rows = map (\<lambda>((k, xs), (k', ys)). (k, xs @ ys)) (zip (rows df_ref) (rows c))\<rparr>"
    by (auto simp: concat_axis1_def index_def split: if_splits)
  from c' show "columns c' = map (\<lambda>r. (r, ''-'')) rc @ columns c"
    by simp
  from c' rows_ref show "rows c' = map (\<lambda>((k, xs), (k', ys)). (k, xs @ ys))
                    (zip (map (\<lambda>(k, vs). (k, map (cell_at (columns ob) vs) rc))
                              (loc_rows ob (index c)))
                         (rows c))"
    by simp
  from same rows_ref show "map fst (loc_rows ob (index c)) = index c"
    by (simp add: comp_def case_prod_unfold)
qed










section \<open>Reference columns\<close>

text \<open>
  C4, as amended.  When reference columns are configured and \<^verbatim>\<open>changed\<close> is not empty, the
  columns of \<^verbatim>\<open>changed\<close> are one column \<open>(c, "-")\<close> for each reference column \<open>c\<close>, in the
  configured order, followed by the columns of the cell comparison; every row of
  \<^verbatim>\<open>changed\<close> begins with the cells that an old row with the same key has in the reference
  columns, followed by a row of the cell comparison with that key.  The reference columns
  are columns of the reconciled old frame, which is the frame that is compared: they are
  compared like every other common column.
\<close>

theorem ref_cols_prepended:
  assumes "get_sheet_diff self df_old df_new = (Inr res, df_old', df_new')"
    and "other_ref_cols self = Some ref_cols" and "ref_cols \<noteq> []"
    and "\<not> empty_df (changed res)"
  shows "\<exists>cmp. compare (old_stem self) (new_stem self)
                 (both_rows df_old' df_old' df_new') (both_rows df_new' df_old' df_new') = Inr cmp
           \<and> columns (changed res) = map (\<lambda>c. (c, ''-'')) ref_cols @ columns cmp
           \<and> set ref_cols \<subseteq> set (columns df_old')
           \<and> (\<forall>(k, vs) \<in> set (rows (changed res)).
                 \<exists>os ds. (k, os) \<in> set (rows df_old')
                   \<and> (k, ds) \<in> set (rows (fillna (Str []) cmp))
                   \<and> vs = map (cell_at (columns df_old') os) ref_cols @ ds)"
proof -
  let ?ob = "fst (both_rows df_old' df_old' df_new')"
  from assms(1) have "diff_reconciled self df_old' df_new' = Inr res"
    by (auto dest: get_sheet_diff_fst)
  then obtain cmp where
    cmp: "compare (old_stem self) (new_stem self)
            (both_rows df_old' df_old' df_new') (both_rows df_new' df_old' df_new') = Inr cmp"
    and ref: "add_ref_cols self ?ob (fillna (Str []) cmp) = Inr (changed res)"
    by (rule diff_reconciled_Inr)
  let ?c = "fillna (Str []) cmp"
  have nonempty: "\<not> empty_df ?c"
    using ref assms(4) add_ref_cols_unchanged [of ?c self ?ob] by auto
  note parts = add_ref_cols_Inr [OF ref assms(2,3) nonempty]
  have cols_ob: "columns ?ob = columns df_old'"
    by (simp add: both_rows_def)
  have "\<exists>os ds. (k, os) \<in> set (rows df_old') \<and> (k, ds) \<in> set (rows ?c)
           \<and> vs = map (cell_at (columns df_old') os) ref_cols @ ds"
    if "(k, vs) \<in> set (rows (changed res))" for k vs
  proof -
    let ?R = "map (\<lambda>(k, vs). (k, map (cell_at (columns ?ob) vs) ref_cols)) (loc_rows ?ob (index ?c))"
    from that parts(3) obtain xs k' ys where in_zip: "((k, xs), (k', ys)) \<in> set (zip ?R (rows ?c))"
      and vs: "vs = xs @ ys"
      by auto
    have "map fst ?R = map fst (rows ?c)"
      using parts(4) by (simp add: comp_def case_prod_unfold index_def)
    from zip_same_map [OF this in_zip] have "k = k'"
      by simp
    from in_zip have "(k, xs) \<in> set ?R"
      by (rule set_zip_leftD)
    then obtain os where "(k, os) \<in> set (loc_rows ?ob (index ?c))"
      and xs: "xs = map (cell_at (columns ?ob) os) ref_cols"
      by auto
    then have "(k, os) \<in> set (rows df_old')"
      using set_both_rows [of df_old' df_old' df_new'] by (auto simp: set_loc_rows)
    moreover from in_zip \<open>k = k'\<close> have "(k, ys) \<in> set (rows ?c)"
      by (auto dest: set_zip_rightD)
    ultimately show ?thesis
      using vs xs cols_ob by auto
  qed
  then have "\<forall>(k, vs) \<in> set (rows (changed res)).
                 \<exists>os ds. (k, os) \<in> set (rows df_old')
                   \<and> (k, ds) \<in> set (rows ?c)
                   \<and> vs = map (cell_at (columns df_old') os) ref_cols @ ds"
    by blast
  moreover have "columns (changed res) = map (\<lambda>c. (c, ''-'')) ref_cols @ columns cmp"
    using parts(2) by (simp add: fillna_def)
  moreover have "set ref_cols \<subseteq> set (columns df_old')"
    using parts(1) by (simp add: cols_ob)
  ultimately show ?thesis
    using cmp by blast
qed

text \<open>
  C4 as stated fails in its last part: \<open>ref_old\<close> and \<open>ref_new\<close> agree in the column
  \<^verbatim>\<open>val\<close> and differ only in the reference column \<^verbatim>\<open>name\<close>, at the key 1; that row is in
  \<^verbatim>\<open>changed\<close>, with the old/new pair of columns for \<^verbatim>\<open>name\<close>.
\<close>

theorem ref_col_is_diffed:
  "other_ref_cols ref_self = Some [''name'']
   \<and> map (\<lambda>(k, vs). (k, cell_at (columns ref_old) vs ''val'')) (rows ref_old)
       = map (\<lambda>(k, vs). (k, cell_at (columns ref_new) vs ''val'')) (rows ref_new)
   \<and> fst (get_sheet_diff ref_self ref_old ref_new) =
       Inr \<lparr>changed = \<lparr>columns = [(''name'', ''-''), (''name'', ''old''), (''name'', ''new'')],
                        rows = [(Num 1, [Str ''a'', Str ''a'', Str ''A''])]\<rparr>,
            added = \<lparr>columns = [''name'', ''val''], rows = []\<rparr>,
            deleted = \<lparr>columns = [''name'', ''val''], rows = []\<rparr>\<rparr>"
  by code_simp

lemma ref_self_diff:
  "get_sheet_diff ref_self ref_old ref_new2 =
     (Inr \<lparr>changed = \<lparr>columns = [(''name'', ''-''), (''val'', ''old''), (''val'', ''new'')],
                        rows = [(Num 2, [Str ''b'', Num 20, Num 21])]\<rparr>,
           added = \<lparr>columns = [''name'', ''val''], rows = []\<rparr>,
           deleted = \<lparr>columns = [''name'', ''val''], rows = []\<rparr>\<rparr>,
      ref_old, ref_new2)"
  by code_simp

theorem ref_cols_prepended_witness:
  "\<exists>cmp. compare (old_stem ref_self) (new_stem ref_self)
            (both_rows ref_old ref_old ref_new2) (both_rows ref_new2 ref_old ref_new2) = Inr cmp
      \<and> [(''name'', ''-''), (''val'', ''old''), (''val'', ''new'')]
          = map (\<lambda>c. (c, ''-'')) [''name''] @ columns cmp
      \<and> set [''name''] \<subseteq> set (columns ref_old)"
  using ref_cols_prepended [OF ref_self_diff, of "[''name'']"]
  by (auto simp: ref_self_def empty_df_def)

section \<open>The loop over the sheets\<close>

lemma store_Cons:
  "store n d ((m, x) # book) = (if m = n then (m, d) else (m, x)) # store n d book"
  by (simp add: store_def)

lemma store_Nil: "store n d [] = []"
  by (simp add: store_def)

lemma map_of_store_other: "m \<noteq> n \<Longrightarrow> map_of (store n d book) m = map_of book m"
proof (induction book)
  case Nil
  then show ?case by (simp add: store_Nil)
next
  case (Cons p book)
  then show ?case by (cases p) (simp add: store_Cons)
qed

lemma map_of_store_same: "map_of book n = Some x \<Longrightarrow> map_of (store n d book) n = Some d"
proof (induction book)
  case Nil
  then show ?case by simp
next
  case (Cons p book)
  then show ?case by (cases p) (simp add: store_Cons split: if_splits)
qed

lemma names_store: "map fst (store n d book) = map fst book"
proof (induction book)
  case Nil
  then show ?case by (simp add: store_Nil)
next
  case (Cons p book)
  then show ?case by (cases p) (simp add: store_Cons)
qed

lemma reconcile_books:
  "delete_ignored_and_conflicting_cols (self\<lparr>old_excel := a\<rparr>) = delete_ignored_and_conflicting_cols self"
  "delete_ignored_and_conflicting_cols (self\<lparr>new_excel := b\<rparr>) = delete_ignored_and_conflicting_cols self"
  by (simp_all add: fun_eq_iff delete_ignored_and_conflicting_cols_def)

lemma add_ref_cols_books:
  "add_ref_cols (self\<lparr>old_excel := a\<rparr>) = add_ref_cols self"
  "add_ref_cols (self\<lparr>new_excel := b\<rparr>) = add_ref_cols self"
  by (simp_all add: fun_eq_iff add_ref_cols_def)

lemma diff_reconciled_books:
  "diff_reconciled (self\<lparr>old_excel := a\<rparr>) = diff_reconciled self"
  "diff_reconciled (self\<lparr>new_excel := b\<rparr>) = diff_reconciled self"
  by (simp_all add: fun_eq_iff diff_reconciled_unfold add_ref_cols_books split: sum.splits)

lemma get_sheet_diff_books:
  "get_sheet_diff (self\<lparr>old_excel := a\<rparr>) = get_sheet_diff self"
  "get_sheet_diff (self\<lparr>new_excel := b\<rparr>) = get_sheet_diff self"
  by (simp_all add: fun_eq_iff get_sheet_diff_def reconcile_books diff_reconciled_books)

lemma set_key_books:
  "set_key (self\<lparr>old_excel := a\<rparr>) = set_key self"
  "set_key (self\<lparr>new_excel := b\<rparr>) = set_key self"
  by (simp_all add: fun_eq_iff set_key_def)

text \<open>What one pass of the loop body does, case by case.\<close>

lemma compare_sheet_cases:
  assumes "compare_sheet self n = (res, self')"
  obtains
    (no_old) "map_of (old_excel self) n = None" "res = Inl (KeyError (Str n))" "self' = self"
  | (old_key) df_old e where "map_of (old_excel self) n = Some df_old"
      "set_key self df_old = Inl e" "res = Inl e" "self' = self"
  | (no_new) df_old df_old1 where "map_of (old_excel self) n = Some df_old"
      "set_key self df_old = Inr df_old1" "map_of (new_excel self) n = None"
      "res = Inl (KeyError (Str n))" "self' = self\<lparr>old_excel := store n df_old1 (old_excel self)\<rparr>"
  | (new_key) df_old df_old1 df_new e where "map_of (old_excel self) n = Some df_old"
      "set_key self df_old = Inr df_old1" "map_of (new_excel self) n = Some df_new"
      "set_key self df_new = Inl e"
      "res = Inl e" "self' = self\<lparr>old_excel := store n df_old1 (old_excel self)\<rparr>"
  | (diff) df_old df_old1 df_new df_new1 df_old2 df_new2 where
      "map_of (old_excel self) n = Some df_old"
      "set_key self df_old = Inr df_old1" "map_of (new_excel self) n = Some df_new"
      "set_key self df_new = Inr df_new1"
      "get_sheet_diff self df_old1 df_new1 = (res, df_old2, df_new2)"
      "self' = self\<lparr>old_excel := store n df_old2 (store n df_old1 (old_excel self)),
                     new_excel := store n df_new2 (new_excel self)\<rparr>"
proof (cases "map_of (old_excel self) n")
  case None
  with assms have "res = Inl (KeyError (Str n))" "self' = self"
    by (simp_all add: compare_sheet_def)
  with None show ?thesis by (rule no_old)
next
  case old: (Some df_old)
  show ?thesis
  proof (cases "set_key self df_old")
    case (Inl e)
    with assms old have "res = Inl e" "self' = self"
      by (simp_all add: compare_sheet_def)
    with old Inl show ?thesis by (rule old_key)
  next
    case key_old: (Inr df_old1)
    let ?self1 = "self\<lparr>old_excel := store n df_old1 (old_excel self)\<rparr>"
    show ?thesis
    proof (cases "map_of (new_excel self) n")
      case None
      with assms old key_old have "res = Inl (KeyError (Str n))" "self' = ?self1"
        by (simp_all add: compare_sheet_def)
      with old key_old None show ?thesis by (rule no_new)
    next
      case new: (Some df_new)
      show ?thesis
      proof (cases "set_key self df_new")
        case (Inl e)
        with assms old key_old new have "res = Inl e" "self' = ?self1"
          by (simp_all add: compare_sheet_def set_key_books)
        with old key_old new Inl show ?thesis by (rule new_key)
      next
        case key_new: (Inr df_new1)
        obtain r df_old2 df_new2 where
          gsd: "get_sheet_diff self df_old1 df_new1 = (r, df_old2, df_new2)"
          by (cases "get_sheet_diff self df_old1 df_new1")
        with assms old key_old new key_new have "res = r"
          and "self' = self\<lparr>old_excel := store n df_old2 (store n df_old1 (old_excel self)),
                            new_excel := store n df_new2 (new_excel self)\<rparr>"
          by (simp_all add: compare_sheet_def set_key_books get_sheet_diff_books)
        with old key_old new key_new gsd show ?thesis
          using diff by blast
      qed
    qed
  qed
qed

lemma compare_sheet_books:
  assumes "compare_sheet self n = (res, self')"
  shows "\<exists>a b. self' = self\<lparr>old_excel := a, new_excel := b\<rparr>
           \<and> map fst a = map fst (old_excel self)
           \<and> (\<forall>m. m \<noteq> n \<longrightarrow> map_of a m = map_of (old_excel self) m
                              \<and> map_of b m = map_of (new_excel self) m)"
  using assms
proof (cases rule: compare_sheet_cases)
  case no_old
  then show ?thesis
    by (intro exI [of _ "old_excel self"] exI [of _ "new_excel self"]) simp
next
  case (old_key df_old e)
  then show ?thesis
    by (intro exI [of _ "old_excel self"] exI [of _ "new_excel self"]) simp
next
  case (no_new df_old df_old1)
  then show ?thesis
    by (intro exI [of _ "store n df_old1 (old_excel self)"] exI [of _ "new_excel self"])
      (simp add: names_store map_of_store_other)
next
  case (new_key df_old df_old1 df_new e)
  then show ?thesis
    by (intro exI [of _ "store n df_old1 (old_excel self)"] exI [of _ "new_excel self"])
      (simp add: names_store map_of_store_other)
next
  case (diff df_old df_old1 df_new df_new1 df_old2 df_new2)
  then show ?thesis
    by (intro exI [of _ "store n df_old2 (store n df_old1 (old_excel self))"]
        exI [of _ "store n df_new2 (new_excel self)"])
      (simp add: names_store map_of_store_other)
qed

lemma compare_sheet_frame:
  assumes "compare_sheet self n = (res, self')"
  shows "index_name self' = index_name self"
    and "map fst (old_excel self') = map fst (old_excel self)"
    and "set_key self' = set_key self"
    and "get_sheet_diff self' = get_sheet_diff self"
    and "m \<noteq> n \<Longrightarrow> map_of (old_excel self') m = map_of (old_excel self) m"
    and "m \<noteq> n \<Longrightarrow> map_of (new_excel self') m = map_of (new_excel self) m"
proof -
  from compare_sheet_books [OF assms] obtain a b where
    self': "self' = (self\<lparr>old_excel := a\<rparr>)\<lparr>new_excel := b\<rparr>"
    and names: "map fst a = map fst (old_excel self)"
    and others: "\<And>m. m \<noteq> n \<Longrightarrow> map_of a m = map_of (old_excel self) m
                              \<and> map_of b m = map_of (new_excel self) m"
    by auto
  show "index_name self' = index_name self"
    by (simp add: self')
  show "map fst (old_excel self') = map fst (old_excel self)"
    by (simp add: self' names)
  show "set_key self' = set_key self"
    unfolding self' by (simp only: set_key_books)
  show "get_sheet_diff self' = get_sheet_diff self"
    unfolding self' by (simp only: get_sheet_diff_books)
  show "map_of (old_excel self') m = map_of (old_excel self) m" if "m \<noteq> n"
    using others [OF that] by (simp add: self')
  show "map_of (new_excel self') m = map_of (new_excel self) m" if "m \<noteq> n"
    using others [OF that] by (simp add: self')
qed

lemma compare_sheets_step:
  assumes "compare_sheets self (n # ns) = (res, self')"
  obtains (stop) e where "compare_sheet self n = (Inl e, self')" "res = Inl e"
  | (fail) d self1 e where "compare_sheet self n = (Inr d, self1)"
      "compare_sheets self1 ns = (Inl e, self')" "res = Inl e"
  | (go) d self1 ds where "compare_sheet self n = (Inr d, self1)"
      "compare_sheets self1 ns = (Inr ds, self')" "res = Inr ((n, d) # ds)"
proof (cases "compare_sheet self n")
  case (Pair r self1)
  show ?thesis
  proof (cases r)
    case (Inl e)
    with assms Pair have "res = Inl e" "self' = self1" by simp_all
    with Pair Inl show ?thesis using stop by simp
  next
    case r: (Inr d)
    obtain res2 self2 where rest: "compare_sheets self1 ns = (res2, self2)"
      by (cases "compare_sheets self1 ns")
    show ?thesis
    proof (cases res2)
      case (Inl e)
      with assms Pair r rest have "res = Inl e" "self' = self2" by simp_all
      with Pair r rest Inl show ?thesis using fail by simp
    next
      case (Inr ds)
      with assms Pair r rest have "res = Inr ((n, d) # ds)" "self' = self2" by simp_all
      with Pair r rest Inr show ?thesis using go by simp
    qed
  qed
qed

lemma compare_sheets_frame:
  assumes "compare_sheets self names = (res, self')"
  shows "index_name self' = index_name self
    \<and> map fst (old_excel self') = map fst (old_excel self)
    \<and> set_key self' = set_key self
    \<and> get_sheet_diff self' = get_sheet_diff self
    \<and> (\<forall>m. m \<notin> set names \<longrightarrow> map_of (old_excel self') m = map_of (old_excel self) m
                              \<and> map_of (new_excel self') m = map_of (new_excel self) m)"
  using assms
proof (induction names arbitrary: self res)
  case Nil
  then show ?case by simp
next
  case (Cons n ns)
  from Cons.prems show ?case
  proof (cases rule: compare_sheets_step)
    case (stop e)
    from compare_sheet_frame [OF stop(1)] show ?thesis by simp
  next
    case (fail d self1 e)
    from compare_sheet_frame [OF fail(1)] Cons.IH [OF fail(2)] show ?thesis by simp
  next
    case (go d self1 ds)
    from compare_sheet_frame [OF go(1)] Cons.IH [OF go(2)] show ?thesis by simp
  qed
qed

lemma compare_sheet_Inr:
  assumes "compare_sheet self n = (Inr d, self1)"
  shows "sheet_outcome self self1 n d"
  using assms
proof (cases rule: compare_sheet_cases)
  case (diff df_old df_old1 df_new df_new1 df_old2 df_new2)
  from diff(1) have "map_of (store n df_old1 (old_excel self)) n = Some df_old1"
    by (rule map_of_store_same)
  then have "map_of (store n df_old2 (store n df_old1 (old_excel self))) n = Some df_old2"
    by (rule map_of_store_same)
  moreover from diff(3) have "map_of (store n df_new2 (new_excel self)) n = Some df_new2"
    by (rule map_of_store_same)
  ultimately have "map_of (old_excel self1) n = Some df_old2"
    and "map_of (new_excel self1) n = Some df_new2"
    by (simp_all add: diff(6))
  with diff(1-5) show ?thesis by blast
qed simp_all

lemma compare_sheets_Inr:
  assumes "compare_sheets self names = (Inr ds, self')" and "distinct names"
  shows "map fst ds = names \<and> (\<forall>(n, d) \<in> set ds. sheet_outcome self self' n d)"
  using assms
proof (induction names arbitrary: self ds)
  case Nil
  then show ?case by simp
next
  case (Cons n ns)
  from Cons.prems(1) show ?case
  proof (cases rule: compare_sheets_step)
    case (go d self1 ds')
    from Cons.prems(2) have n: "n \<notin> set ns" and dist: "distinct ns"
      by simp_all
    from Cons.IH [OF go(2) dist] have names: "map fst ds' = ns"
      and rest: "\<And>m d'. (m, d') \<in> set ds' \<Longrightarrow> sheet_outcome self1 self' m d'"
      by auto
    note step = compare_sheet_frame [OF go(1)]
    note later = compare_sheets_frame [OF go(2)]
    have head: "sheet_outcome self self' n d"
      using compare_sheet_Inr [OF go(1)] later n by auto
    have tail: "sheet_outcome self self' m d'" if "(m, d') \<in> set ds'" for m d'
    proof -
      from that names have "m \<in> set ns"
        by force
      with n have "m \<noteq> n"
        by blast
      with rest [OF that] step(3,4) step(5) [of m] step(6) [of m] show ?thesis
        by simp
    qed
    have "sheet_outcome self self' (fst p) (snd p)" if "p \<in> set ds" for p
    proof (cases "p = (n, d)")
      case True
      with head show ?thesis by simp
    next
      case False
      with that go(3) have "(fst p, snd p) \<in> set ds'" by simp
      then show ?thesis by (rule tail)
    qed
    then have "\<forall>p \<in> set ds. sheet_outcome self self' (fst p) (snd p)"
      by blast
    moreover have "map fst ds = n # ns"
      using names go(3) by simp
    ultimately show ?thesis
      by (simp only: case_prod_unfold)
  qed simp_all
qed

lemma in_book_map_of: "distinct (map fst book) \<Longrightarrow> (n, d) \<in> set book \<Longrightarrow> map_of book n = Some d"
  by simp

text \<open>
  C1, as amended.  Sheets are paired by name.  When \<^verbatim>\<open>get_excel_diff\<close> returns, its result
  has one entry for each sheet name of the old workbook, in the order of the old workbook,
  and the entry for a name is what \<^verbatim>\<open>get_sheet_diff\<close> returns for the old sheet and the new
  sheet of that name, each after its key setup; so every sheet name of the old workbook is
  then a sheet name of the new one.
\<close>

theorem sheets_paired_by_name:
  assumes "distinct (map fst (old_excel self))" and "get_excel_diff self = (Inr ds, self')"
  shows "map fst ds = map fst (old_excel self)
     \<and> (\<forall>(n, d) \<in> set ds.
           \<exists>df_old df_new df_old1 df_new1.
             map_of (old_excel self) n = Some df_old \<and> map_of (new_excel self) n = Some df_new
             \<and> set_key self df_old = Inr df_old1 \<and> set_key self df_new = Inr df_new1
             \<and> fst (get_sheet_diff self df_old1 df_new1) = Inr d)"
proof -
  from assms(2) have "compare_sheets self (map fst (old_excel self)) = (Inr ds, self')"
    by (simp add: get_excel_diff_def)
  from compare_sheets_Inr [OF this assms(1)]
  have names: "map fst ds = map fst (old_excel self)"
    and all: "\<forall>p \<in> set ds. sheet_outcome self self' (fst p) (snd p)"
    by (simp_all only: case_prod_unfold) simp_all
  have "\<exists>df_old df_new df_old1 df_new1.
             map_of (old_excel self) (fst p) = Some df_old
             \<and> map_of (new_excel self) (fst p) = Some df_new
             \<and> set_key self df_old = Inr df_old1 \<and> set_key self df_new = Inr df_new1
             \<and> fst (get_sheet_diff self df_old1 df_new1) = Inr (snd p)" if "p \<in> set ds" for p
  proof -
    from all that obtain df_old df_new df_old1 df_new1 df_old2 df_new2 where
      "map_of (old_excel self) (fst p) = Some df_old" "map_of (new_excel self) (fst p) = Some df_new"
      "set_key self df_old = Inr df_old1" "set_key self df_new = Inr df_new1"
      "get_sheet_diff self df_old1 df_new1 = (Inr (snd p), df_old2, df_new2)"
      by blast
    then show ?thesis by force
  qed
  with names show ?thesis
    by (simp only: case_prod_unfold) blast
qed

lemma swapped_diff:
  "get_excel_diff swapped_self =
     (Inr [(''A'', \<lparr>changed = \<lparr>columns = [], rows = []\<rparr>,
                    added = \<lparr>columns = [''val''], rows = []\<rparr>,
                    deleted = \<lparr>columns = [''val''], rows = []\<rparr>\<rparr>),
           (''B'', \<lparr>changed = \<lparr>columns = [], rows = []\<rparr>,
                    added = \<lparr>columns = [''val''], rows = []\<rparr>,
                    deleted = \<lparr>columns = [''val''], rows = []\<rparr>\<rparr>)],
      swapped_self
        \<lparr>old_excel := [(''A'', \<lparr>columns = [''val''], rows = [(Num 1, [Str ''a''])]\<rparr>),
                       (''B'', \<lparr>columns = [''val''], rows = [(Num 1, [Str ''b''])]\<rparr>)],
         new_excel := [(''B'', \<lparr>columns = [''val''], rows = [(Num 1, [Str ''b''])]\<rparr>),
                       (''A'', \<lparr>columns = [''val''], rows = [(Num 1, [Str ''a''])]\<rparr>)]\<rparr>)"
  by code_simp

theorem sheets_paired_by_name_witness:
  "map fst [(''A'', \<lparr>changed = \<lparr>columns = [], rows = []\<rparr>,
                    added = \<lparr>columns = [''val''], rows = []\<rparr>,
                    deleted = \<lparr>columns = [''val''], rows = []\<rparr>\<rparr>),
           (''B'', \<lparr>changed = \<lparr>columns = [], rows = []\<rparr>,
                    added = \<lparr>columns = [''val''], rows = []\<rparr>,
                    deleted = \<lparr>columns = [''val''], rows = []\<rparr>\<rparr>)]
     = map fst (old_excel swapped_self)"
proof -
  have "distinct (map fst (old_excel swapped_self))"
    by (simp add: swapped_self_def)
  from sheets_paired_by_name [OF this swapped_diff] show ?thesis
    by (rule conjunct1)
qed

text \<open>
  C1 as stated fails.  In \<open>swapped_self\<close> the first sheet of the old workbook is \<^verbatim>\<open>A\<close> and
  the first sheet of the new one is \<^verbatim>\<open>B\<close>: the program compares \<^verbatim>\<open>A\<close> with \<^verbatim>\<open>A\<close> and
  \<^verbatim>\<open>B\<close> with \<^verbatim>\<open>B\<close> and finds no difference, where the pairing by position finds one in
  each pair.  In \<open>short_self\<close> the new workbook is shorter: the program does not stop at the
  shorter workbook but raises KeyError for the sheet name \<^verbatim>\<open>B\<close>.
\<close>

theorem pairing_not_positional:
  "fst (get_excel_diff swapped_self) =
     Inr [(''A'', \<lparr>changed = \<lparr>columns = [], rows = []\<rparr>,
                   added = \<lparr>columns = [''val''], rows = []\<rparr>,
                   deleted = \<lparr>columns = [''val''], rows = []\<rparr>\<rparr>),
          (''B'', \<lparr>changed = \<lparr>columns = [], rows = []\<rparr>,
                   added = \<lparr>columns = [''val''], rows = []\<rparr>,
                   deleted = \<lparr>columns = [''val''], rows = []\<rparr>\<rparr>)]
   \<and> positional_excel_diff swapped_self =
       [(''A'', Inr \<lparr>changed = \<lparr>columns = [(''val'', ''old''), (''val'', ''new'')],
                                 rows = [(Num 1, [Str ''a'', Str ''b''])]\<rparr>,
                     added = \<lparr>columns = [''val''], rows = []\<rparr>,
                     deleted = \<lparr>columns = [''val''], rows = []\<rparr>\<rparr>),
        (''B'', Inr \<lparr>changed = \<lparr>columns = [(''val'', ''old''), (''val'', ''new'')],
                                 rows = [(Num 1, [Str ''b'', Str ''a''])]\<rparr>,
                     added = \<lparr>columns = [''val''], rows = []\<rparr>,
                     deleted = \<lparr>columns = [''val''], rows = []\<rparr>\<rparr>)]
   \<and> fst (get_excel_diff short_self) = Inl (KeyError (Str ''B''))
   \<and> positional_excel_diff short_self =
       [(''A'', Inr \<lparr>changed = \<lparr>columns = [], rows = []\<rparr>,
                     added = \<lparr>columns = [''val''], rows = []\<rparr>,
                     deleted = \<lparr>columns = [''val''], rows = []\<rparr>\<rparr>)]"
  by code_simp

section \<open>The workbooks after a call\<close>

lemma set_key_Inr:
  "index_name self \<noteq> ''_index_'' \<Longrightarrow> set_key self d = Inr d1 \<Longrightarrow>
   index_name self \<notin> set (columns d1)"
  by (auto simp: set_key_def set_index_def split: if_splits)

lemma set_key_Inl:
  "set_key self d = Inl e \<Longrightarrow>
   e = KeyError (Str (index_name self)) \<and> index_name self \<notin> set (columns d)"
  by (auto simp: set_key_def set_index_def split: if_splits)

lemma set_key_missing:
  "index_name self \<noteq> ''_index_'' \<Longrightarrow> index_name self \<notin> set (columns d) \<Longrightarrow>
   set_key self d = Inl (KeyError (Str (index_name self)))"
  by (simp add: set_key_def set_index_def)

lemma columns_get_sheet_diff:
  assumes "get_sheet_diff self a b = (r, a2, b2)"
  shows "set (columns a2) \<subseteq> set (columns a)"
proof -
  from assms have "delete_ignored_and_conflicting_cols self a b = (a2, b2)"
    by (auto dest: get_sheet_diff_fst)
  then show ?thesis
    by (auto simp: delete_ignored_and_conflicting_cols_def Let_def columns_drop_cols)
qed

lemma compare_sheet_key_gone:
  assumes "compare_sheet self n = (res, self1)" and "index_name self \<noteq> ''_index_''"
    and "map_of (old_excel self) n = Some df"
  shows "\<exists>d'. map_of (old_excel self1) n = Some d' \<and> index_name self \<notin> set (columns d')"
  using assms(1)
proof (cases rule: compare_sheet_cases)
  case no_old
  with assms(3) show ?thesis by simp
next
  case (old_key df_old e)
  with set_key_Inl [OF old_key(2)] show ?thesis by simp
next
  case (no_new df_old df_old1)
  from no_new(1) have "map_of (store n df_old1 (old_excel self)) n = Some df_old1"
    by (rule map_of_store_same)
  with set_key_Inr [OF assms(2) no_new(2)] no_new(5) show ?thesis by simp
next
  case (new_key df_old df_old1 df_new e)
  from new_key(1) have "map_of (store n df_old1 (old_excel self)) n = Some df_old1"
    by (rule map_of_store_same)
  with set_key_Inr [OF assms(2) new_key(2)] new_key(6) show ?thesis by simp
next
  case (diff df_old df_old1 df_new df_new1 df_old2 df_new2)
  from diff(1) have "map_of (store n df_old1 (old_excel self)) n = Some df_old1"
    by (rule map_of_store_same)
  then have "map_of (store n df_old2 (store n df_old1 (old_excel self))) n = Some df_old2"
    by (rule map_of_store_same)
  moreover have "index_name self \<notin> set (columns df_old2)"
    using set_key_Inr [OF assms(2) diff(2)] columns_get_sheet_diff [OF diff(5)] by blast
  ultimately show ?thesis
    by (simp add: diff(6))
qed

lemma compare_sheets_key_gone:
  assumes "compare_sheets self (n # ns) = (res, self')" and "n \<notin> set ns"
    and "index_name self \<noteq> ''_index_''" and "map_of (old_excel self) n = Some df"
  shows "\<exists>d'. map_of (old_excel self') n = Some d' \<and> index_name self \<notin> set (columns d')"
  using assms(1)
proof (cases rule: compare_sheets_step)
  case (stop e)
  from compare_sheet_key_gone [OF stop(1) assms(3,4)] show ?thesis .
next
  case (fail d self1 e)
  from compare_sheets_frame [OF fail(2)] assms(2)
  have "map_of (old_excel self') n = map_of (old_excel self1) n" by blast
  with compare_sheet_key_gone [OF fail(1) assms(3,4)] show ?thesis by simp
next
  case (go d self1 ds)
  from compare_sheets_frame [OF go(2)] assms(2)
  have "map_of (old_excel self') n = map_of (old_excel self1) n" by blast
  with compare_sheet_key_gone [OF go(1) assms(3,4)] show ?thesis by simp
qed

lemma second_call_fails:
  assumes "distinct (map fst (old_excel self))" and "get_excel_diff self = (res, self')"
    and "index_name self \<noteq> ''_index_''" and "old_excel self \<noteq> []"
  shows "fst (get_excel_diff self') = Inl (KeyError (Str (index_name self)))"
proof -
  from assms(4) obtain n df rest where book: "old_excel self = (n, df) # rest"
    by (cases "old_excel self") auto
  let ?ns = "map fst rest"
  from assms(2) book have run: "compare_sheets self (n # ?ns) = (res, self')"
    by (simp add: get_excel_diff_def)
  from assms(1) book have n: "n \<notin> set ?ns"
    by simp
  from book have "map_of (old_excel self) n = Some df"
    by simp
  from compare_sheets_key_gone [OF run n assms(3) this] obtain d' where
    d': "map_of (old_excel self') n = Some d'" "index_name self \<notin> set (columns d')"
    by blast
  from compare_sheets_frame [OF run] book have same: "index_name self' = index_name self"
    and names: "map fst (old_excel self') = n # ?ns"
    by simp_all
  from d' same assms(3) have "set_key self' d' = Inl (KeyError (Str (index_name self)))"
    using set_key_missing [of self' d'] by simp
  with d'(1) have "compare_sheet self' n = (Inl (KeyError (Str (index_name self))), self')"
    by (simp add: compare_sheet_def)
  then show ?thesis
    by (simp add: get_excel_diff_def names)
qed

lemma sheets_after:
  assumes "distinct (map fst (old_excel self))" and "get_excel_diff self = (Inr ds, self')"
    and "(n, df_old) \<in> set (old_excel self)"
  shows "\<exists>df_new df_old1 df_new1.
           map_of (new_excel self) n = Some df_new
           \<and> set_key self df_old = Inr df_old1 \<and> set_key self df_new = Inr df_new1
           \<and> map_of (old_excel self') n
               = Some (fst (delete_ignored_and_conflicting_cols self df_old1 df_new1))
           \<and> map_of (new_excel self') n
               = Some (snd (delete_ignored_and_conflicting_cols self df_old1 df_new1))"
proof -
  from assms(2) have run: "compare_sheets self (map fst (old_excel self)) = (Inr ds, self')"
    by (simp add: get_excel_diff_def)
  from compare_sheets_Inr [OF run assms(1)]
  have names: "map fst ds = map fst (old_excel self)"
    and all: "\<forall>p \<in> set ds. sheet_outcome self self' (fst p) (snd p)"
    by (simp_all only: case_prod_unfold) simp_all
  from assms(3) have "n \<in> set (map fst (old_excel self))"
    by force
  with names obtain d where "(n, d) \<in> set ds"
    by (metis (no_types) in_set_conv_nth length_map nth_map prod.collapse nth_mem)
  with all obtain o0 df_new df_old1 df_new1 df_old2 df_new2 where
    o0: "map_of (old_excel self) n = Some o0" and new: "map_of (new_excel self) n = Some df_new"
    and keys: "set_key self o0 = Inr df_old1" "set_key self df_new = Inr df_new1"
    and gsd: "get_sheet_diff self df_old1 df_new1 = (Inr d, df_old2, df_new2)"
    and after: "map_of (old_excel self') n = Some df_old2" "map_of (new_excel self') n = Some df_new2"
    by fastforce
  from assms(1,3) o0 have "o0 = df_old"
    by simp
  moreover from gsd have "delete_ignored_and_conflicting_cols self df_old1 df_new1 = (df_old2, df_new2)"
    by (auto dest: get_sheet_diff_fst)
  ultimately show ?thesis
    using new keys after by simp
qed

text \<open>When one pass of the loop body, and when the whole loop, returns a result.\<close>

lemma compare_sheet_returns:
  assumes "map_of (old_excel self) n = Some df_old" and "map_of (new_excel self) n = Some df_new"
    and "set_key self df_old = Inr df_old1" and "set_key self df_new = Inr df_new1"
    and "fst (get_sheet_diff self df_old1 df_new1) = Inr d"
  shows "\<exists>self1. compare_sheet self n = (Inr d, self1)"
proof -
  obtain r a b where g: "get_sheet_diff self df_old1 df_new1 = (r, a, b)"
    by (cases "get_sheet_diff self df_old1 df_new1")
  with assms(5) have "r = Inr d"
    by simp
  with g assms(1-4) show ?thesis
    by (simp add: compare_sheet_def set_key_books get_sheet_diff_books)
qed

lemma compare_sheets_returns:
  assumes "distinct names"
    and "\<forall>n \<in> set names. \<exists>df_old df_new df_old1 df_new1 d.
           map_of (old_excel self) n = Some df_old \<and> map_of (new_excel self) n = Some df_new
           \<and> set_key self df_old = Inr df_old1 \<and> set_key self df_new = Inr df_new1
           \<and> fst (get_sheet_diff self df_old1 df_new1) = Inr d"
  shows "\<exists>ds self'. compare_sheets self names = (Inr ds, self')"
  using assms
proof (induction names arbitrary: self)
  case Nil
  then show ?case by simp
next
  case (Cons n ns)
  from Cons.prems(2) have "\<exists>df_old df_new df_old1 df_new1 d.
           map_of (old_excel self) n = Some df_old \<and> map_of (new_excel self) n = Some df_new
           \<and> set_key self df_old = Inr df_old1 \<and> set_key self df_new = Inr df_new1
           \<and> fst (get_sheet_diff self df_old1 df_new1) = Inr d"
    by simp
  then obtain d self1 where step: "compare_sheet self n = (Inr d, self1)"
    using compare_sheet_returns [of self n] by blast
  note frame = compare_sheet_frame [OF step]
  from Cons.prems(1) have n: "n \<notin> set ns" and dist: "distinct ns"
    by simp_all
  have "\<forall>m \<in> set ns. \<exists>df_old df_new df_old1 df_new1 d.
           map_of (old_excel self1) m = Some df_old \<and> map_of (new_excel self1) m = Some df_new
           \<and> set_key self1 df_old = Inr df_old1 \<and> set_key self1 df_new = Inr df_new1
           \<and> fst (get_sheet_diff self1 df_old1 df_new1) = Inr d"
  proof
    fix m assume m: "m \<in> set ns"
    with n have "m \<noteq> n"
      by blast
    with Cons.prems(2) m frame(5) [of m] frame(6) [of m]
    show "\<exists>df_old df_new df_old1 df_new1 d.
           map_of (old_excel self1) m = Some df_old \<and> map_of (new_excel self1) m = Some df_new
           \<and> set_key self1 df_old = Inr df_old1 \<and> set_key self1 df_new = Inr df_new1
           \<and> fst (get_sheet_diff self1 df_old1 df_new1) = Inr d"
      unfolding frame(3,4) by simp
  qed
  from Cons.IH [OF dist this] obtain ds self' where "compare_sheets self1 ns = (Inr ds, self')"
    by blast
  with step show ?case
    by simp
qed

text \<open>
  What the loop leaves of the first sheet, whatever follows: the key setup of the old sheet
  stays when the new workbook lacks the sheet or the new sheet lacks the key column, and
  both frames stay as reconciled when \<^verbatim>\<open>get_sheet_diff\<close> has been called on them.
\<close>

lemma first_sheet_after:
  assumes "compare_sheets self (n # ns) = (res, self')" and "n \<notin> set ns"
    and "map_of (old_excel self) n = Some df_old"
  shows "case set_key self df_old of
           Inl e \<Rightarrow> res = Inl e \<and> self' = self
         | Inr df_old1 \<Rightarrow>
             (case map_of (new_excel self) n of
                None \<Rightarrow> res = Inl (KeyError (Str n))
                         \<and> self' = self\<lparr>old_excel := store n df_old1 (old_excel self)\<rparr>
              | Some df_new \<Rightarrow>
                  (case set_key self df_new of
                     Inl e \<Rightarrow> res = Inl e
                              \<and> self' = self\<lparr>old_excel := store n df_old1 (old_excel self)\<rparr>
                   | Inr df_new1 \<Rightarrow>
                       map_of (old_excel self') n
                         = Some (fst (delete_ignored_and_conflicting_cols self df_old1 df_new1))
                       \<and> map_of (new_excel self') n
                           = Some (snd (delete_ignored_and_conflicting_cols self df_old1 df_new1))
                       \<and> (\<forall>e. fst (get_sheet_diff self df_old1 df_new1) = Inl e \<longrightarrow> res = Inl e)))"
proof -
  obtain r1 self1 where cs: "compare_sheet self n = (r1, self1)"
    by (cases "compare_sheet self n")
  have key: "(\<exists>e. r1 = Inl e \<and> res = Inl e \<and> self' = self1)
      \<or> (\<exists>d. r1 = Inr d \<and> map_of (old_excel self') n = map_of (old_excel self1) n
                \<and> map_of (new_excel self') n = map_of (new_excel self1) n)"
    using assms(1)
  proof (cases rule: compare_sheets_step)
    case (stop e)
    with cs show ?thesis by simp
  next
    case (fail d s1 e)
    with cs compare_sheets_frame [OF fail(2)] assms(2) show ?thesis by auto
  next
    case (go d s1 ds)
    with cs compare_sheets_frame [OF go(2)] assms(2) show ?thesis by auto
  qed
  from cs show ?thesis
  proof (cases rule: compare_sheet_cases)
    case no_old
    with assms(3) show ?thesis by simp
  next
    case (old_key df e)
    with assms(3) key show ?thesis by auto
  next
    case (no_new df df_old1)
    with assms(3) key show ?thesis by auto
  next
    case (new_key df df_old1 df_new e)
    with assms(3) key show ?thesis by auto
  next
    case (diff df df_old1 df_new df_new1 df_old2 df_new2)
    from diff(1) have "map_of (store n df_old1 (old_excel self)) n = Some df_old1"
      by (rule map_of_store_same)
    then have "map_of (store n df_old2 (store n df_old1 (old_excel self))) n = Some df_old2"
      by (rule map_of_store_same)
    moreover from diff(3) have "map_of (store n df_new2 (new_excel self)) n = Some df_new2"
      by (rule map_of_store_same)
    ultimately have s1: "map_of (old_excel self1) n = Some df_old2"
      "map_of (new_excel self1) n = Some df_new2"
      by (simp_all add: diff(6))
    from diff(5) have rec: "delete_ignored_and_conflicting_cols self df_old1 df_new1 = (df_old2, df_new2)"
      by (auto dest: get_sheet_diff_fst)
    from key s1 have after: "map_of (old_excel self') n = Some df_old2"
      "map_of (new_excel self') n = Some df_new2"
      by auto
    from key diff(5) have "\<forall>e. fst (get_sheet_diff self df_old1 df_new1) = Inl e \<longrightarrow> res = Inl e"
      by auto
    with after rec diff(1-4) assms(3) show ?thesis
      by simp
  qed
qed

text \<open>
  C9.  \<^verbatim>\<open>get_excel_diff\<close> changes the sheets stored in the object.  After a call that
  returns, the old and the new sheet of every sheet name of the old workbook are the frames
  after their key setup (the key column moved into the index, or the positional index
  named) and after the reconciliation of their columns.  The call returns when every sheet
  of the old workbook has a sheet of its name in the new workbook, the key setup succeeds
  for both and \<^verbatim>\<open>get_sheet_diff\<close> returns for them.  Whether the call returns or raises,
  the first sheet is left changed as far as the call got with it: not at all when the old
  sheet lacks the key column, with the key setup of the old sheet when the new workbook
  lacks the sheet or the new sheet lacks the key column, and otherwise with both frames
  after key setup and reconciliation; an exception of \<^verbatim>\<open>get_sheet_diff\<close> for the first
  sheet is the exception of the call.  And with a key column configured and a workbook that
  has a sheet, a second call on the object the first call leaves behind raises KeyError for
  the key column: the first sheet of the old workbook does not have it.
\<close>

theorem get_excel_diff_in_place:
  assumes "distinct (map fst (old_excel self))" and "get_excel_diff self = (res, self')"
  shows "(\<forall>ds. res = Inr ds \<longrightarrow>
            (\<forall>(n, df_old) \<in> set (old_excel self).
               \<exists>df_new df_old1 df_new1.
                 map_of (new_excel self) n = Some df_new
                 \<and> set_key self df_old = Inr df_old1 \<and> set_key self df_new = Inr df_new1
                 \<and> map_of (old_excel self') n
                     = Some (fst (delete_ignored_and_conflicting_cols self df_old1 df_new1))
                 \<and> map_of (new_excel self') n
                     = Some (snd (delete_ignored_and_conflicting_cols self df_old1 df_new1))))
     \<and> ((\<forall>(n, df_old) \<in> set (old_excel self).
            \<exists>df_new df_old1 df_new1 d.
              map_of (new_excel self) n = Some df_new
              \<and> set_key self df_old = Inr df_old1 \<and> set_key self df_new = Inr df_new1
              \<and> fst (get_sheet_diff self df_old1 df_new1) = Inr d)
          \<longrightarrow> (\<exists>ds. res = Inr ds))
     \<and> (\<forall>n df_old rest. old_excel self = (n, df_old) # rest \<longrightarrow>
          (case set_key self df_old of
             Inl e \<Rightarrow> res = Inl e \<and> self' = self
           | Inr df_old1 \<Rightarrow>
               (case map_of (new_excel self) n of
                  None \<Rightarrow> res = Inl (KeyError (Str n))
                           \<and> self' = self\<lparr>old_excel := store n df_old1 (old_excel self)\<rparr>
                | Some df_new \<Rightarrow>
                    (case set_key self df_new of
                       Inl e \<Rightarrow> res = Inl e
                                \<and> self' = self\<lparr>old_excel := store n df_old1 (old_excel self)\<rparr>
                     | Inr df_new1 \<Rightarrow>
                         map_of (old_excel self') n
                           = Some (fst (delete_ignored_and_conflicting_cols self df_old1 df_new1))
                         \<and> map_of (new_excel self') n
                             = Some (snd (delete_ignored_and_conflicting_cols self df_old1 df_new1))
                         \<and> (\<forall>e. fst (get_sheet_diff self df_old1 df_new1) = Inl e
                                \<longrightarrow> res = Inl e)))))
     \<and> (index_name self \<noteq> ''_index_'' \<and> old_excel self \<noteq> [] \<longrightarrow>
          fst (get_excel_diff self') = Inl (KeyError (Str (index_name self))))"
proof (intro conjI allI impI)
  fix ds
  assume "res = Inr ds"
  with assms(2) have run: "get_excel_diff self = (Inr ds, self')"
    by simp
  show "\<forall>(n, df_old) \<in> set (old_excel self).
               \<exists>df_new df_old1 df_new1.
                 map_of (new_excel self) n = Some df_new
                 \<and> set_key self df_old = Inr df_old1 \<and> set_key self df_new = Inr df_new1
                 \<and> map_of (old_excel self') n
                     = Some (fst (delete_ignored_and_conflicting_cols self df_old1 df_new1))
                 \<and> map_of (new_excel self') n
                     = Some (snd (delete_ignored_and_conflicting_cols self df_old1 df_new1))"
    using sheets_after [OF assms(1) run] by blast
next
  assume all: "\<forall>(n, df_old) \<in> set (old_excel self).
            \<exists>df_new df_old1 df_new1 d.
              map_of (new_excel self) n = Some df_new
              \<and> set_key self df_old = Inr df_old1 \<and> set_key self df_new = Inr df_new1
              \<and> fst (get_sheet_diff self df_old1 df_new1) = Inr d"
  have "\<forall>n \<in> set (map fst (old_excel self)). \<exists>df_old df_new df_old1 df_new1 d.
           map_of (old_excel self) n = Some df_old \<and> map_of (new_excel self) n = Some df_new
           \<and> set_key self df_old = Inr df_old1 \<and> set_key self df_new = Inr df_new1
           \<and> fst (get_sheet_diff self df_old1 df_new1) = Inr d"
  proof
    fix n assume "n \<in> set (map fst (old_excel self))"
    then obtain df_old where mem: "(n, df_old) \<in> set (old_excel self)"
      by auto
    with assms(1) have "map_of (old_excel self) n = Some df_old"
      by simp
    with all mem show "\<exists>df_old df_new df_old1 df_new1 d.
           map_of (old_excel self) n = Some df_old \<and> map_of (new_excel self) n = Some df_new
           \<and> set_key self df_old = Inr df_old1 \<and> set_key self df_new = Inr df_new1
           \<and> fst (get_sheet_diff self df_old1 df_new1) = Inr d"
      by fastforce
  qed
  from compare_sheets_returns [OF assms(1) this] assms(2) show "\<exists>ds. res = Inr ds"
    by (auto simp: get_excel_diff_def)
next
  fix n df_old rest
  assume book: "old_excel self = (n, df_old) # rest"
  with assms(2) have run: "compare_sheets self (n # map fst rest) = (res, self')"
    by (simp add: get_excel_diff_def)
  from assms(1) book have n: "n \<notin> set (map fst rest)"
    by simp
  from book have "map_of (old_excel self) n = Some df_old"
    by simp
  from first_sheet_after [OF run n this]
  show "case set_key self df_old of
             Inl e \<Rightarrow> res = Inl e \<and> self' = self
           | Inr df_old1 \<Rightarrow>
               (case map_of (new_excel self) n of
                  None \<Rightarrow> res = Inl (KeyError (Str n))
                           \<and> self' = self\<lparr>old_excel := store n df_old1 (old_excel self)\<rparr>
                | Some df_new \<Rightarrow>
                    (case set_key self df_new of
                       Inl e \<Rightarrow> res = Inl e
                                \<and> self' = self\<lparr>old_excel := store n df_old1 (old_excel self)\<rparr>
                     | Inr df_new1 \<Rightarrow>
                         map_of (old_excel self') n
                           = Some (fst (delete_ignored_and_conflicting_cols self df_old1 df_new1))
                         \<and> map_of (new_excel self') n
                             = Some (snd (delete_ignored_and_conflicting_cols self df_old1 df_new1))
                         \<and> (\<forall>e. fst (get_sheet_diff self df_old1 df_new1) = Inl e
                                \<longrightarrow> res = Inl e)))" .
next
  assume "index_name self \<noteq> ''_index_'' \<and> old_excel self \<noteq> []"
  then show "fst (get_excel_diff self') = Inl (KeyError (Str (index_name self)))"
    using second_call_fails [OF assms] by blast
qed

text \<open>
  The sheet \<^verbatim>\<open>S\<close> of \<open>book_self\<close>: after the call the key column \<^verbatim>\<open>id\<close> is the index of
  both frames and the columns \<^verbatim>\<open>notes\<close> and \<^verbatim>\<open>extra\<close> are gone.
\<close>

lemma book_keys:
  "set_key book_self book_old
     = Inr \<lparr>columns = [''val'', ''notes'', ''extra''],
            rows = [(Num 1, [Str ''a'', Str ''x'', Num 0])]\<rparr>"
  "set_key book_self book_new
     = Inr \<lparr>columns = [''val'', ''notes''], rows = [(Num 1, [Str ''b'', Str ''y''])]\<rparr>"
  by code_simp+

lemma book_reconciled:
  "delete_ignored_and_conflicting_cols book_self
      \<lparr>columns = [''val'', ''notes'', ''extra''], rows = [(Num 1, [Str ''a'', Str ''x'', Num 0])]\<rparr>
      \<lparr>columns = [''val'', ''notes''], rows = [(Num 1, [Str ''b'', Str ''y''])]\<rparr>
     = (\<lparr>columns = [''val''], rows = [(Num 1, [Str ''a''])]\<rparr>,
        \<lparr>columns = [''val''], rows = [(Num 1, [Str ''b''])]\<rparr>)"
  by code_simp

lemma book_sheet_diff:
  "fst (get_sheet_diff book_self
      \<lparr>columns = [''val'', ''notes'', ''extra''], rows = [(Num 1, [Str ''a'', Str ''x'', Num 0])]\<rparr>
      \<lparr>columns = [''val'', ''notes''], rows = [(Num 1, [Str ''b'', Str ''y''])]\<rparr>)
     = Inr \<lparr>changed = \<lparr>columns = [(''val'', ''old''), (''val'', ''new'')],
                        rows = [(Num 1, [Str ''a'', Str ''b''])]\<rparr>,
            added = \<lparr>columns = [''val''], rows = []\<rparr>,
            deleted = \<lparr>columns = [''val''], rows = []\<rparr>\<rparr>"
  by code_simp

theorem get_excel_diff_in_place_witness:
  "(\<exists>ds. fst (get_excel_diff book_self) = Inr ds)
   \<and> map_of (old_excel book_self) ''S''
       = Some \<lparr>columns = [''id'', ''val'', ''notes'', ''extra''],
               rows = [(Num 0, [Num 1, Str ''a'', Str ''x'', Num 0])]\<rparr>
   \<and> map_of (old_excel (snd (get_excel_diff book_self))) ''S''
       = Some \<lparr>columns = [''val''], rows = [(Num 1, [Str ''a''])]\<rparr>
   \<and> map_of (new_excel (snd (get_excel_diff book_self))) ''S''
       = Some \<lparr>columns = [''val''], rows = [(Num 1, [Str ''b''])]\<rparr>
   \<and> fst (get_excel_diff (snd (get_excel_diff book_self))) = Inl (KeyError (Str ''id''))"
proof -
  have d: "distinct (map fst (old_excel book_self))"
    by (simp add: book_self_def)
  have e: "get_excel_diff book_self
             = (fst (get_excel_diff book_self), snd (get_excel_diff book_self))"
    by simp
  have book: "old_excel book_self = [(''S'', book_old)]" "new_excel book_self = [(''S'', book_new)]"
    "index_name book_self = ''id''"
    by (simp_all add: book_self_def)
  note parts = get_excel_diff_in_place [OF d e]
  have "\<exists>ds. fst (get_excel_diff book_self) = Inr ds"
    using parts [THEN conjunct2, THEN conjunct1]
    by (simp add: book book_keys book_sheet_diff)
  moreover have "map_of (old_excel (snd (get_excel_diff book_self))) ''S''
       = Some \<lparr>columns = [''val''], rows = [(Num 1, [Str ''a''])]\<rparr>
     \<and> map_of (new_excel (snd (get_excel_diff book_self))) ''S''
       = Some \<lparr>columns = [''val''], rows = [(Num 1, [Str ''b''])]\<rparr>"
    using parts [THEN conjunct2, THEN conjunct2, THEN conjunct1]
    by (simp add: book book_keys book_reconciled)
  moreover have "fst (get_excel_diff (snd (get_excel_diff book_self))) = Inl (KeyError (Str ''id''))"
    using parts [THEN conjunct2, THEN conjunct2, THEN conjunct2]
    by (simp add: book)
  moreover have "map_of (old_excel book_self) ''S''
       = Some \<lparr>columns = [''id'', ''val'', ''notes'', ''extra''],
               rows = [(Num 0, [Num 1, Str ''a'', Str ''x'', Num 0])]\<rparr>"
    by (simp add: book book_old_def)
  ultimately show ?thesis
    by blast
qed

end
